theory Spec2Isabelle
  imports Complex_Main
begin

section \<open>Candidate tickets (xbox_tokens_device_code.py, xbl_user_authenticate)\<close>

text \<open>
  The first half of \<^verbatim>\<open>xbl_user_authenticate\<close> builds the list \<^verbatim>\<open>uniq\<close> of labelled
  RpsTicket candidates. It calls two functions of \<^verbatim>\<open>urllib.parse\<close>, which are not code of
  the repository: \<^verbatim>\<open>unquote\<close> and \<^verbatim>\<open>quote(s, safe='')\<close>. The model takes both as
  parameters \<open>unq\<close> and \<open>qt\<close>; \<open>unq\<close> returns \<open>None\<close> where the call would raise, which is
  the branch the source's \<^verbatim>\<open>try ... except\<close> handles.

  A ticket is the pair (label, encoded value), as in the source's
  \<^verbatim>\<open>list[tuple[str, str]]\<close>.
\<close>

type_synonym ticket = "string \<times> string"

text \<open>\<^verbatim>\<open>raw_fragment = ms_access_token_raw or ms_access_token\<close>: Python's \<^verbatim>\<open>or\<close> takes the
  right operand when the left one is \<^verbatim>\<open>None\<close> or the empty string.\<close>

definition raw_fragment_of :: "string \<Rightarrow> string option \<Rightarrow> string" where
  "raw_fragment_of ms_access_token ms_access_token_raw =
     (case ms_access_token_raw of
        None \<Rightarrow> ms_access_token
      | Some r \<Rightarrow> if r = [] then ms_access_token else r)"

text \<open>\<^verbatim>\<open>try: raw_fragment_decoded = unquote(raw_fragment)
  except Exception: raw_fragment_decoded = raw_fragment\<close>\<close>

definition raw_fragment_decoded_of :: "(string \<Rightarrow> string option) \<Rightarrow> string \<Rightarrow> string" where
  "raw_fragment_decoded_of unq raw_fragment =
     (case unq raw_fragment of None \<Rightarrow> raw_fragment | Some d \<Rightarrow> d)"

text \<open>\<^verbatim>\<open>def add(label, ticket): if not ticket: return; tickets.append((label, ticket))\<close>,
  with the list \<^verbatim>\<open>tickets\<close> passed and returned.\<close>

definition add :: "string \<Rightarrow> string \<Rightarrow> ticket list \<Rightarrow> ticket list" where
  "add label t tickets = (if t = [] then tickets else tickets @ [(label, t)])"

text \<open>The loop \<^verbatim>\<open>for base_label, base in [...]: add(f"d={base_label}", f"d={base}");
  add(f"t={base_label}", f"t={base}")\<close>.\<close>

fun add_prefixed :: "ticket list \<Rightarrow> ticket list \<Rightarrow> ticket list" where
  "add_prefixed [] tickets = tickets"
| "add_prefixed ((base_label, base) # rest) tickets =
     add_prefixed rest
       (add (''t='' @ base_label) (''t='' @ base)
         (add (''d='' @ base_label) (''d='' @ base) tickets))"

text \<open>The loop \<^verbatim>\<open>for lbl, t in tickets: if t in seen: continue; seen.add(t);
  uniq.append((lbl, t))\<close>, with \<^verbatim>\<open>seen\<close> and \<^verbatim>\<open>uniq\<close> passed along.\<close>

fun dedup_loop :: "ticket list \<Rightarrow> string set \<Rightarrow> ticket list \<Rightarrow> ticket list" where
  "dedup_loop [] seen uniq = uniq"
| "dedup_loop ((lbl, t) # rest) seen uniq =
     (if t \<in> seen then dedup_loop rest seen uniq
      else dedup_loop rest (insert t seen) (uniq @ [(lbl, t)]))"

text \<open>The six base strings with their labels, in the order of the source.\<close>

definition bases ::
  "(string \<Rightarrow> string option) \<Rightarrow> (string \<Rightarrow> string) \<Rightarrow> string \<Rightarrow> string option \<Rightarrow> ticket list" where
  "bases unq qt ms_access_token ms_access_token_raw =
     (let decoded = ms_access_token;
          raw_fragment = raw_fragment_of ms_access_token ms_access_token_raw;
          raw_fragment_decoded = raw_fragment_decoded_of unq raw_fragment;
          decoded_enc = qt decoded;
          rawfrag_enc = qt raw_fragment;
          rawfrag_decoded_enc = qt raw_fragment_decoded
      in [(''decoded'', decoded),
          (''rawfrag'', raw_fragment),
          (''rawfrag_decoded'', raw_fragment_decoded),
          (''decoded_enc'', decoded_enc),
          (''rawfrag_enc'', rawfrag_enc),
          (''rawfrag_decoded_enc'', rawfrag_decoded_enc)])"

text \<open>The list \<^verbatim>\<open>tickets\<close> before de-duplication: six calls of \<^verbatim>\<open>add\<close> on the plain and
  the percent-encoded strings, then the loop of the prefixed variants.\<close>

definition all_tickets ::
  "(string \<Rightarrow> string option) \<Rightarrow> (string \<Rightarrow> string) \<Rightarrow> string \<Rightarrow> string option \<Rightarrow> ticket list" where
  "all_tickets unq qt ms_access_token ms_access_token_raw =
     (let bs = bases unq qt ms_access_token ms_access_token_raw
      in add_prefixed bs (fold (\<lambda>(label, t). add label t) bs []))"

text \<open>The list \<^verbatim>\<open>uniq\<close> the request loops run over.\<close>

definition candidate_tickets ::
  "(string \<Rightarrow> string option) \<Rightarrow> (string \<Rightarrow> string) \<Rightarrow> string \<Rightarrow> string option \<Rightarrow> ticket list" where
  "candidate_tickets unq qt ms_access_token ms_access_token_raw =
     dedup_loop (all_tickets unq qt ms_access_token ms_access_token_raw) {} []"

subsection \<open>The enumeration in the specification's words\<close>

text \<open>
  The specification lists: the decoded form; the raw form; the raw form with percent-escapes
  removed; the percent-re-encoded versions of the three; and each of the six prefixed with
  \<^verbatim>\<open>d=\<close> and with \<^verbatim>\<open>t=\<close>. Duplicate encoded values are removed, keeping the first
  occurrence. \<open>spec_forms\<close> is that list for a given raw form, \<open>keep_first\<close> the removal of
  duplicates, and \<open>spec_candidates\<close> the enumeration when an absent raw form defaults to the
  decoded token.
\<close>

definition spec_forms ::
  "(string \<Rightarrow> string option) \<Rightarrow> (string \<Rightarrow> string) \<Rightarrow> string \<Rightarrow> string \<Rightarrow> ticket list" where
  "spec_forms unq qt decoded raw =
     (let unescaped = (case unq raw of None \<Rightarrow> raw | Some d \<Rightarrow> d);
          six = [(''decoded'', decoded), (''rawfrag'', raw), (''rawfrag_decoded'', unescaped),
                 (''decoded_enc'', qt decoded), (''rawfrag_enc'', qt raw),
                 (''rawfrag_decoded_enc'', qt unescaped)]
      in six @ concat (map (\<lambda>(l, b). [(''d='' @ l, ''d='' @ b), (''t='' @ l, ''t='' @ b)]) six))"

fun keep_first :: "ticket list \<Rightarrow> ticket list" where
  "keep_first [] = []"
| "keep_first ((l, t) # rest) = (l, t) # keep_first (filter (\<lambda>(l', t'). t' \<noteq> t) rest)"

definition spec_candidates ::
  "(string \<Rightarrow> string option) \<Rightarrow> (string \<Rightarrow> string) \<Rightarrow> string \<Rightarrow> string option \<Rightarrow> ticket list" where
  "spec_candidates unq qt decoded raw_opt =
     keep_first (spec_forms unq qt decoded (case raw_opt of None \<Rightarrow> decoded | Some r \<Rightarrow> r))"

subsection \<open>A byte-level instance of the two library functions\<close>

text \<open>
  For evaluation on concrete tokens: \<^verbatim>\<open>quote(s, safe='')\<close> keeps letters, digits and
  \<^verbatim>\<open>_.-~\<close> and writes every other byte as \<^verbatim>\<open>%XX\<close> in upper-case hexadecimal;
  \<^verbatim>\<open>unquote\<close> replaces each \<^verbatim>\<open>%XX\<close> (two hexadecimal digits, either case) by its byte and
  never raises. Strings are byte strings here; the instance agrees with the library on
  ASCII text whose escapes denote ASCII bytes.
\<close>

definition always_safe :: "char \<Rightarrow> bool" where
  "always_safe c \<longleftrightarrow>
     c \<in> set ''ABCDEFGHIJKLMNOPQRSTUVWXYZabcdefghijklmnopqrstuvwxyz0123456789_.-~''"

definition hex_digit :: "nat \<Rightarrow> char" where
  "hex_digit n = ''0123456789ABCDEF'' ! (n mod 16)"

definition hex_value :: "char \<Rightarrow> nat option" where
  "hex_value c =
     map_of (zip ''0123456789ABCDEFabcdef''
                 [0, 1, 2, 3, 4, 5, 6, 7, 8, 9, 10, 11, 12, 13, 14, 15, 10, 11, 12, 13, 14, 15]) c"

definition py_quote :: "string \<Rightarrow> string" where
  "py_quote s =
     concat (map (\<lambda>c. if always_safe c then [c]
                       else [CHR ''%'', hex_digit (of_char c div 16), hex_digit (of_char c mod 16)]) s)"

fun unquote_bytes :: "string \<Rightarrow> string" where
  "unquote_bytes (p # a # b # rest) =
     (if p = CHR ''%'' then
        (case (hex_value a, hex_value b) of
           (Some x, Some y) \<Rightarrow> char_of (16 * x + y) # unquote_bytes rest
         | _ \<Rightarrow> p # unquote_bytes (a # b # rest))
      else p # unquote_bytes (a # b # rest))"
| "unquote_bytes s = s"

definition py_unquote :: "string \<Rightarrow> string option" where
  "py_unquote s = Some (unquote_bytes s)"

section \<open>Python values, exceptions and the outside world\<close>

text \<open>
  Both scripts decode JSON into loosely typed dictionaries and store what they find in
  \<^verbatim>\<open>TokenSet\<close> fields without checking its type, so a field can hold any decoded JSON
  value. \<open>json\<close> is the type of these values: \<^verbatim>\<open>None\<close>, booleans, integers, strings,
  lists and dictionaries (an association list in key order; \<open>map_of\<close> reads it).
  Floating-point numbers are left out.
\<close>

datatype json =
    JNull
  | JBool bool
  | JInt int
  | JStr string
  | JArr "json list"
  | JObj "(string \<times> json) list"

text \<open>The exceptions the modelled code raises or lets through. All of them are caught by
  \<^verbatim>\<open>except Exception\<close>. The message of a \<^verbatim>\<open>RuntimeError\<close> is kept up to the formatted
  response data.\<close>

datatype exn =
    RuntimeError string
  | TimeoutError string
  | ValueError
  | TypeError
  | AttributeError
  | KeyError string
  | JSONDecodeError
  | OSError
  | HTTPError
  | RequestException

text \<open>Truth value of a Python object, as \<^verbatim>\<open>not x\<close>, \<^verbatim>\<open>x or y\<close> and \<^verbatim>\<open>if x\<close> use it.\<close>

fun truthy :: "json \<Rightarrow> bool" where
  "truthy JNull = False"
| "truthy (JBool b) = b"
| "truthy (JInt n) = (n \<noteq> 0)"
| "truthy (JStr s) = (s \<noteq> [])"
| "truthy (JArr xs) = (xs \<noteq> [])"
| "truthy (JObj kvs) = (kvs \<noteq> [])"

definition py_or :: "json \<Rightarrow> json \<Rightarrow> json" where
  "py_or a b = (if truthy a then a else b)"

text \<open>\<^verbatim>\<open>d.get(k)\<close> and \<^verbatim>\<open>d.get(k, default)\<close> on a dictionary, \<^verbatim>\<open>d[k]\<close>, and
  \<^verbatim>\<open>x.get(k)\<close> on any decoded value: only a dictionary has the method.\<close>

definition dict_get :: "(string \<times> json) list \<Rightarrow> string \<Rightarrow> json" where
  "dict_get d k = (case map_of d k of None \<Rightarrow> JNull | Some v \<Rightarrow> v)"

definition dict_get_default :: "(string \<times> json) list \<Rightarrow> string \<Rightarrow> json \<Rightarrow> json" where
  "dict_get_default d k dflt = (case map_of d k of None \<Rightarrow> dflt | Some v \<Rightarrow> v)"

definition dict_index :: "(string \<times> json) list \<Rightarrow> string \<Rightarrow> exn + json" where
  "dict_index d k = (case map_of d k of None \<Rightarrow> Inl (KeyError k) | Some v \<Rightarrow> Inr v)"

definition as_dict :: "json \<Rightarrow> exn + (string \<times> json) list" where
  "as_dict j = (case j of JObj d \<Rightarrow> Inr d | _ \<Rightarrow> Inl AttributeError)"

text \<open>\<^verbatim>\<open>int(x)\<close>. On a string: surrounding white space, an optional sign, decimal digits,
  single underscores between digits (ASCII only).\<close>

definition is_space :: "char \<Rightarrow> bool" where
  "is_space c \<longleftrightarrow> c \<in> {CHR 0x20, CHR 0x09, CHR 0x0A, CHR 0x0B, CHR 0x0C, CHR 0x0D}"

definition strip :: "string \<Rightarrow> string" where
  "strip s = rev (dropWhile is_space (rev (dropWhile is_space s)))"

definition digit_value :: "char \<Rightarrow> nat option" where
  "digit_value c = map_of (zip ''0123456789'' [0, 1, 2, 3, 4, 5, 6, 7, 8, 9]) c"

fun digits_value :: "string \<Rightarrow> int \<Rightarrow> int option" where
  "digits_value [] acc = Some acc"
| "digits_value (c # cs) acc =
     (if c = CHR ''_'' then
        (case cs of
           [] \<Rightarrow> None
         | d # ds \<Rightarrow>
             (case digit_value d of
                None \<Rightarrow> None
              | Some v \<Rightarrow> digits_value ds (10 * acc + int v)))
      else (case digit_value c of
              None \<Rightarrow> None
            | Some v \<Rightarrow> digits_value cs (10 * acc + int v)))"

definition unsigned_of_str :: "string \<Rightarrow> int option" where
  "unsigned_of_str s =
     (case s of
        [] \<Rightarrow> None
      | c # cs \<Rightarrow> (case digit_value c of None \<Rightarrow> None | Some v \<Rightarrow> digits_value cs (int v)))"

definition int_of_str :: "string \<Rightarrow> int option" where
  "int_of_str s =
     (case strip s of
        [] \<Rightarrow> None
      | c # cs \<Rightarrow>
          if c = CHR ''-'' then map_option uminus (unsigned_of_str cs)
          else if c = CHR ''+'' then unsigned_of_str cs
          else unsigned_of_str (c # cs))"

fun py_int :: "json \<Rightarrow> exn + int" where
  "py_int (JInt n) = Inr n"
| "py_int (JBool b) = Inr (if b then 1 else 0)"
| "py_int (JStr s) = (case int_of_str s of None \<Rightarrow> Inl ValueError | Some n \<Rightarrow> Inr n)"
| "py_int JNull = Inl TypeError"
| "py_int (JArr xs) = Inl TypeError"
| "py_int (JObj kvs) = Inl TypeError"

text \<open>\<^verbatim>\<open>str(n)\<close> of an integer, for the status codes in the failure summary.\<close>

function str_digits :: "int \<Rightarrow> string" where
  "str_digits n =
     (if n < 10 then [''0123456789'' ! nat n]
      else str_digits (n div 10) @ [''0123456789'' ! nat (n mod 10)])"
  by pat_completeness auto
termination
  by (relation "measure nat") auto

declare str_digits.simps [simp del]

definition str_int :: "int \<Rightarrow> string" where
  "str_int i = (if i < 0 then CHR ''-'' # str_digits (- i) else str_digits i)"

text \<open>\<^verbatim>\<open>", ".join(xs)\<close>\<close>

fun join :: "string \<Rightarrow> string list \<Rightarrow> string" where
  "join sep [] = []"
| "join sep [x] = x"
| "join sep (x # y # ys) = x @ sep @ join sep (y # ys)"

subsection \<open>HTTP\<close>

text \<open>
  A request as \<^verbatim>\<open>requests.post\<close> receives it: the URL, the headers, and a form
  (\<^verbatim>\<open>data=\<close>) or a JSON document (\<^verbatim>\<open>json=\<close>). Of a response the code reads the status
  code and the decoded body; \<open>payload\<close> is \<open>None\<close> when the body is not JSON, where
  \<^verbatim>\<open>r.json()\<close> raises.
\<close>

datatype body = Form "(string \<times> json) list" | JsonBody json

record request =
  url :: string
  headers :: "(string \<times> string) list"
  body :: body

record response =
  status_code :: int
  payload :: "json option"

definition resp_json :: "response \<Rightarrow> exn + json" where
  "resp_json r = (case payload r of None \<Rightarrow> Inl JSONDecodeError | Some j \<Rightarrow> Inr j)"

subsection \<open>The environment and the state of the world\<close>

text \<open>
  What the code cannot decide is a parameter, collected in \<open>env\<close>:
  \<^item> \<open>net n rq\<close>: what happens to request \<open>rq\<close> when \<open>n\<close> requests were sent before it:
    how long the call takes (\<open>delay\<close>, seconds) and whether it raises or returns a
    response (\<open>outcome\<close>);
  \<^item> \<open>oversleep n\<close>: how much longer than asked the \<open>n\<close>-th \<^verbatim>\<open>time.sleep\<close> lasts;
  \<^item> \<open>json_dumps\<close> and \<open>json_loads\<close>: the library's \<^verbatim>\<open>json.dumps(_, indent=2)\<close> and
    \<^verbatim>\<open>json.loads\<close> (\<open>None\<close> where it raises);
  \<^item> \<open>cache_path\<close> (\<^verbatim>\<open>CACHE_PATH\<close>), \<open>tmp_path\<close> (\<^verbatim>\<open>CACHE_PATH.with_suffix(".tmp")\<close>) and
    \<open>client_id\<close> (\<^verbatim>\<open>CLIENT_ID\<close>, not empty).

  \<open>world\<close> is the state the code reads and changes: the clock \<^verbatim>\<open>time.time()\<close> reads (in
  seconds, a real number: floating-point rounding is not modelled), the files, the requests
  sent so far and the arguments of the sleeps so far, both oldest first, and \<open>trace\<close>, the
  same requests and sleeps in the order in which they happened. Only sleeping and waiting
  for a response take time. Printing and debug logging are left out.
\<close>

record reply =
  delay :: real
  outcome :: "exn + response"

datatype fnode = File string nat | Dir

record env =
  net :: "nat \<Rightarrow> request \<Rightarrow> reply"
  oversleep :: "nat \<Rightarrow> real"
  json_dumps :: "json \<Rightarrow> string"
  json_loads :: "string \<Rightarrow> json option"
  cache_path :: string
  tmp_path :: string
  client_id :: string

datatype event = Sent request | Slept int

record world =
  clock :: real
  fs :: "string \<Rightarrow> fnode option"
  sent :: "request list"
  slept :: "int list"
  trace :: "event list"

text \<open>\<^verbatim>\<open>requests.post(...)\<close>\<close>

definition requests_post :: "env \<Rightarrow> request \<Rightarrow> world \<Rightarrow> (exn + response) \<times> world" where
  "requests_post E rq w =
     (let rp = net E (length (sent w)) rq
      in (outcome rp,
          w\<lparr>clock := clock w + delay rp, sent := sent w @ [rq],
            trace := trace w @ [Sent rq]\<rparr>))"

text \<open>\<^verbatim>\<open>time.sleep(secs)\<close>: a negative argument raises \<^verbatim>\<open>ValueError\<close>.\<close>

definition time_sleep :: "env \<Rightarrow> int \<Rightarrow> world \<Rightarrow> (exn + unit) \<times> world" where
  "time_sleep E secs w =
     (if secs < 0 then (Inl ValueError, w)
      else (Inr (),
            w\<lparr>clock := clock w + of_int secs + oversleep E (length (slept w)),
              slept := slept w @ [secs],
              trace := trace w @ [Slept secs]\<rparr>))"

text \<open>\<^verbatim>\<open>int(time.time())\<close>: truncation towards zero.\<close>

definition int_time :: "world \<Rightarrow> int" where
  "int_time w = (if 0 \<le> clock w then \<lfloor>clock w\<rfloor> else \<lceil>clock w\<rceil>)"

text \<open>
  Files: a node is a directory or a file with its text and permission bits. The process
  owns its files, so bit \<^verbatim>\<open>0o400\<close> decides reading and bit \<^verbatim>\<open>0o200\<close> writing. The parent
  directory of the cache is taken to exist and to be writable, so
  \<^verbatim>\<open>_mkdir_secure\<close> changes nothing the model observes.
\<close>

definition owner_can_read :: "nat \<Rightarrow> bool" where
  "owner_can_read m \<longleftrightarrow> odd (m div 256)"

definition owner_can_write :: "nat \<Rightarrow> bool" where
  "owner_can_write m \<longleftrightarrow> odd (m div 128)"

definition path_exists :: "string \<Rightarrow> world \<Rightarrow> bool" where
  "path_exists p w \<longleftrightarrow> fs w p \<noteq> None"

definition read_text :: "string \<Rightarrow> world \<Rightarrow> exn + string" where
  "read_text p w =
     (case fs w p of
        Some (File s m) \<Rightarrow> if owner_can_read m then Inr s else Inl OSError
      | _ \<Rightarrow> Inl OSError)"

definition write_text :: "string \<Rightarrow> string \<Rightarrow> world \<Rightarrow> (exn + unit) \<times> world" where
  "write_text p s w =
     (case fs w p of
        None \<Rightarrow> (Inr (), w\<lparr>fs := (fs w)(p \<mapsto> File s 420)\<rparr>)
      | Some Dir \<Rightarrow> (Inl OSError, w)
      | Some (File old m) \<Rightarrow>
          if owner_can_write m then (Inr (), w\<lparr>fs := (fs w)(p \<mapsto> File s m)\<rparr>)
          else (Inl OSError, w))"

definition chmod :: "string \<Rightarrow> nat \<Rightarrow> world \<Rightarrow> (exn + unit) \<times> world" where
  "chmod p m w =
     (case fs w p of
        None \<Rightarrow> (Inl OSError, w)
      | Some Dir \<Rightarrow> (Inr (), w)
      | Some (File s old) \<Rightarrow> (Inr (), w\<lparr>fs := (fs w)(p \<mapsto> File s m)\<rparr>))"

text \<open>\<^verbatim>\<open>src.replace(dst)\<close>: an atomic rename; a file does not replace a directory.\<close>

definition replace_path :: "string \<Rightarrow> string \<Rightarrow> world \<Rightarrow> (exn + unit) \<times> world" where
  "replace_path src dst w =
     (case fs w src of
        None \<Rightarrow> (Inl OSError, w)
      | Some node \<Rightarrow>
          (case fs w dst of
             Some Dir \<Rightarrow> (Inl OSError, w)
           | _ \<Rightarrow> (Inr (), w\<lparr>fs := ((fs w)(src := None))(dst \<mapsto> node)\<rparr>)))"

section \<open>The platform-user exchange (xbox_tokens_device_code.py, xbl_user_authenticate)\<close>

definition XBL_AUTH_URL :: string where
  "XBL_AUTH_URL = ''https://user.auth.xboxlive.com/user/authenticate''"

definition UA :: string where
  "UA = ''Mozilla/5.0 (Macintosh; Intel Mac OS X) xbox-webapi-ex/diagnostic''"

definition relying_parties :: "string list" where
  "relying_parties = [''http://auth.xboxlive.com'', ''https://auth.xboxlive.com'']"

text \<open>The request that \<^verbatim>\<open>attempt(rps_ticket, relying_party, with_contract_header)\<close>
  posts.\<close>

definition attempt_request :: "string \<Rightarrow> string \<Rightarrow> bool \<Rightarrow> request" where
  "attempt_request rps_ticket relying_party with_contract_header =
     \<lparr>url = XBL_AUTH_URL,
      headers =
        [(''Content-Type'', ''application/json''),
         (''Accept'', ''application/json''),
         (''User-Agent'', UA),
         (''Accept-Language'', ''en-US,en;q=0.9''),
         (''Accept-Encoding'', ''gzip, deflate, br''),
         (''Connection'', ''keep-alive''),
         (''DNT'', ''1'')]
        @ (if with_contract_header then [(''x-xbl-contract-version'', ''1'')] else []),
      body = JsonBody (JObj
        [(''Properties'', JObj [(''AuthMethod'', JStr ''RPS''),
                                (''SiteName'', JStr ''user.auth.xboxlive.com''),
                                (''RpsTicket'', JStr rps_ticket)]),
         (''RelyingParty'', JStr relying_party),
         (''TokenType'', JStr ''JWT'')])\<rparr>"

definition attempt :: "env \<Rightarrow> string \<Rightarrow> string \<Rightarrow> bool \<Rightarrow> world \<Rightarrow> (exn + response) \<times> world" where
  "attempt E rps_ticket relying_party with_contract_header w =
     requests_post E (attempt_request rps_ticket relying_party with_contract_header) w"

text \<open>The label under which a failed attempt is recorded:
  \<^verbatim>\<open>f"XBL({lbl},rp={relying_party},contract={with_contract})"\<close>.\<close>

definition attempt_label :: "string \<Rightarrow> string \<Rightarrow> bool \<Rightarrow> string" where
  "attempt_label lbl relying_party with_contract =
     ''XBL('' @ lbl @ '',rp='' @ relying_party @ '',contract=''
       @ (if with_contract then ''True'' else ''False'') @ '')''"

text \<open>
  The three nested loops. Each returns \<open>Some\<close> result when the function returned or raised
  inside the loop, and \<open>None\<close> when the loop ran to its end; the list \<^verbatim>\<open>attempts\<close> and the
  world are passed along.
\<close>

type_synonym attempts = "(string \<times> response) list"

fun ticket_loop ::
  "env \<Rightarrow> string \<Rightarrow> bool \<Rightarrow> ticket list \<Rightarrow> attempts \<Rightarrow> world
     \<Rightarrow> (exn + json) option \<times> attempts \<times> world" where
  "ticket_loop E relying_party with_contract [] attempts w = (None, attempts, w)"
| "ticket_loop E relying_party with_contract ((lbl, t) # rest) attempts w =
     (case attempt E t relying_party with_contract w of
        (Inl e, w') \<Rightarrow> (Some (Inl e), attempts, w')
      | (Inr r, w') \<Rightarrow>
          if status_code r = 200 then (Some (resp_json r), attempts, w')
          else ticket_loop E relying_party with_contract rest
                 (attempts @ [(attempt_label lbl relying_party with_contract, r)]) w')"

fun contract_loop ::
  "env \<Rightarrow> string \<Rightarrow> bool list \<Rightarrow> ticket list \<Rightarrow> attempts \<Rightarrow> world
     \<Rightarrow> (exn + json) option \<times> attempts \<times> world" where
  "contract_loop E relying_party [] uniq attempts w = (None, attempts, w)"
| "contract_loop E relying_party (with_contract # rest) uniq attempts w =
     (case ticket_loop E relying_party with_contract uniq attempts w of
        (Some res, attempts', w') \<Rightarrow> (Some res, attempts', w')
      | (None, attempts', w') \<Rightarrow> contract_loop E relying_party rest uniq attempts' w')"

fun relying_party_loop ::
  "env \<Rightarrow> string list \<Rightarrow> ticket list \<Rightarrow> attempts \<Rightarrow> world
     \<Rightarrow> (exn + json) option \<times> attempts \<times> world" where
  "relying_party_loop E [] uniq attempts w = (None, attempts, w)"
| "relying_party_loop E (relying_party # rest) uniq attempts w =
     (case contract_loop E relying_party [True, False] uniq attempts w of
        (Some res, attempts', w') \<Rightarrow> (Some res, attempts', w')
      | (None, attempts', w') \<Rightarrow> relying_party_loop E rest uniq attempts' w')"

text \<open>The entries of the summary, \<^verbatim>\<open>f"{lbl}={r.status_code}"\<close> for
  \<^verbatim>\<open>attempts[:12]\<close>, and the error raised when no attempt succeeded.\<close>

definition summary_entries :: "attempts \<Rightarrow> string list" where
  "summary_entries attempts =
     map (\<lambda>(lbl, r). lbl @ ''='' @ str_int (status_code r)) (take 12 attempts)"

definition exhausted_error :: "attempts \<Rightarrow> exn" where
  "exhausted_error attempts =
     RuntimeError (''XBL user/authenticate failed. First attempts: ''
                   @ join '', '' (summary_entries attempts))"

definition xbl_user_authenticate ::
  "(string \<Rightarrow> string option) \<Rightarrow> (string \<Rightarrow> string) \<Rightarrow> env \<Rightarrow> string \<Rightarrow> string option \<Rightarrow> world
     \<Rightarrow> (exn + json) \<times> attempts \<times> world" where
  "xbl_user_authenticate unq qt E ms_access_token ms_access_token_raw w =
     (let uniq = candidate_tickets unq qt ms_access_token ms_access_token_raw
      in case relying_party_loop E relying_parties uniq [] w of
           (Some res, attempts, w') \<Rightarrow> (res, attempts, w')
         | (None, attempts, w') \<Rightarrow> (Inl (exhausted_error attempts), attempts, w'))"

text \<open>
  The order of the combinations in the specification's words: relying party outermost,
  then the header configuration (present, then absent), then the candidate ticket.
\<close>

definition combinations :: "ticket list \<Rightarrow> (string \<times> bool \<times> ticket) list" where
  "combinations uniq =
     concat (map (\<lambda>rp. concat (map (\<lambda>wc. map (\<lambda>t. (rp, wc, t)) uniq) [True, False]))
               relying_parties)"

definition combination_request :: "string \<times> bool \<times> ticket \<Rightarrow> request" where
  "combination_request c = (case c of (rp, wc, (lbl, t)) \<Rightarrow> attempt_request t rp wc)"

definition combination_label :: "string \<times> bool \<times> ticket \<Rightarrow> string" where
  "combination_label c = (case c of (rp, wc, (lbl, t)) \<Rightarrow> attempt_label lbl rp wc)"

text \<open>One loop over a list of combinations: the iteration the three nested loops are
  compared with. \<open>reply_at E w cs i\<close> is what the network answers to the request of
  combination \<open>i\<close> when the combinations before it were tried, in order, from world \<open>w\<close>.\<close>

fun combination_loop ::
  "env \<Rightarrow> (string \<times> bool \<times> ticket) list \<Rightarrow> attempts \<Rightarrow> world
     \<Rightarrow> (exn + json) option \<times> attempts \<times> world" where
  "combination_loop E [] attempts w = (None, attempts, w)"
| "combination_loop E (c # cs) attempts w =
     (case requests_post E (combination_request c) w of
        (Inl e, w') \<Rightarrow> (Some (Inl e), attempts, w')
      | (Inr r, w') \<Rightarrow>
          if status_code r = 200 then (Some (resp_json r), attempts, w')
          else combination_loop E cs (attempts @ [(combination_label c, r)]) w')"

definition reply_at :: "env \<Rightarrow> world \<Rightarrow> (string \<times> bool \<times> ticket) list \<Rightarrow> nat \<Rightarrow> exn + response" where
  "reply_at E w cs i = outcome (net E (length (sent w) + i) (combination_request (cs ! i)))"

section \<open>The token cache and the identity token (ms_oauth_cache.py)\<close>

definition DEVICE_CODE_URL :: string where
  "DEVICE_CODE_URL = ''https://login.microsoftonline.com/consumers/oauth2/v2.0/devicecode''"

definition TOKEN_URL :: string where
  "TOKEN_URL = ''https://login.microsoftonline.com/consumers/oauth2/v2.0/token''"

definition SCOPES :: string where
  "SCOPES = ''openid profile offline_access''"

text \<open>The dataclass \<^verbatim>\<open>TokenSet\<close>. Its fields are annotated \<^verbatim>\<open>Optional[str]\<close> and
  \<^verbatim>\<open>Optional[int]\<close>, but nothing checks what is stored in them (\<open>JNull\<close> is \<^verbatim>\<open>None\<close>).\<close>

record TokenSet =
  access_token :: json
  refresh_token :: json
  id_token :: json
  expires_at :: json
  scope :: json
  token_type :: json

text \<open>\<^verbatim>\<open>TokenSet.from_json(d)\<close> calls \<^verbatim>\<open>d.get\<close>, which only a dictionary has.\<close>

definition from_json :: "json \<Rightarrow> exn + TokenSet" where
  "from_json j =
     (case as_dict j of
        Inl e \<Rightarrow> Inl e
      | Inr d \<Rightarrow>
          Inr \<lparr>access_token = dict_get d ''access_token'',
               refresh_token = dict_get d ''refresh_token'',
               id_token = dict_get d ''id_token'',
               expires_at = dict_get d ''expires_at'',
               scope = dict_get d ''scope'',
               token_type = dict_get d ''token_type''\<rparr>)"

definition to_json :: "TokenSet \<Rightarrow> json" where
  "to_json tok =
     JObj [(''access_token'', access_token tok),
           (''refresh_token'', refresh_token tok),
           (''id_token'', id_token tok),
           (''expires_at'', expires_at tok),
           (''scope'', scope tok),
           (''token_type'', token_type tok)]"

text \<open>\<^verbatim>\<open>_write_secure(path, data)\<close>: write the temporary sibling, make it mode \<^verbatim>\<open>0o600\<close>
  (384), rename it over the target. An exception of any step ends the function.\<close>

definition write_secure :: "env \<Rightarrow> json \<Rightarrow> world \<Rightarrow> (exn + unit) \<times> world" where
  "write_secure E data w =
     (case write_text (tmp_path E) (json_dumps E data) w of
        (Inl e, w1) \<Rightarrow> (Inl e, w1)
      | (Inr u, w1) \<Rightarrow>
          (case chmod (tmp_path E) 384 w1 of
             (Inl e, w2) \<Rightarrow> (Inl e, w2)
           | (Inr u, w2) \<Rightarrow> replace_path (tmp_path E) (cache_path E) w2))"

definition save_cache :: "env \<Rightarrow> TokenSet \<Rightarrow> world \<Rightarrow> (exn + unit) \<times> world" where
  "save_cache E tok w = write_secure E (to_json tok) w"

text \<open>\<^verbatim>\<open>load_cache()\<close>. \<open>load_cache_body\<close> is the body of the \<^verbatim>\<open>try\<close>; the handler
  \<^verbatim>\<open>except Exception: return None\<close> turns every exception of it into \<open>None\<close>. The result
  is a sum so that "does not raise" is a statement about the model.\<close>

definition load_cache_body :: "env \<Rightarrow> world \<Rightarrow> exn + TokenSet" where
  "load_cache_body E w =
     (case read_text (cache_path E) w of
        Inl e \<Rightarrow> Inl e
      | Inr s \<Rightarrow>
          (case json_loads E s of
             None \<Rightarrow> Inl JSONDecodeError
           | Some d \<Rightarrow> from_json d))"

definition load_cache :: "env \<Rightarrow> world \<Rightarrow> exn + TokenSet option" where
  "load_cache E w =
     (if \<not> path_exists (cache_path E) w then Inr None
      else (case load_cache_body E w of
              Inl e \<Rightarrow> Inr None
            | Inr tok \<Rightarrow> Inr (Some tok)))"

text \<open>\<^verbatim>\<open>is_access_token_valid(tok, skew_seconds=60)\<close>\<close>

definition is_access_token_valid :: "TokenSet \<Rightarrow> world \<Rightarrow> exn + bool" where
  "is_access_token_valid tok w =
     (if \<not> truthy (access_token tok) \<or> \<not> truthy (expires_at tok) then Inr False
      else (case py_int (expires_at tok) of
              Inl e \<Rightarrow> Inl e
            | Inr e \<Rightarrow> Inr (int_time w + 60 < e)))"

text \<open>The token built from a successful token response \<open>t\<close>, in
  \<^verbatim>\<open>device_code_login\<close>: every field as the provider gave it.\<close>

definition login_token :: "(string \<times> json) list \<Rightarrow> int \<Rightarrow> world \<Rightarrow> TokenSet" where
  "login_token t expires_in w =
     \<lparr>access_token = dict_get t ''access_token'',
      refresh_token = dict_get t ''refresh_token'',
      id_token = dict_get t ''id_token'',
      expires_at = JInt (int_time w + expires_in),
      scope = dict_get t ''scope'',
      token_type = dict_get t ''token_type''\<rparr>"

text \<open>The branch \<^verbatim>\<open>if tr.status_code == 200\<close> of the poll loop.\<close>

definition poll_success :: "env \<Rightarrow> response \<Rightarrow> world \<Rightarrow> (exn + TokenSet) \<times> world" where
  "poll_success E tr w =
     (case resp_json tr of
        Inl e \<Rightarrow> (Inl e, w)
      | Inr tj \<Rightarrow>
          (case as_dict tj of
             Inl e \<Rightarrow> (Inl e, w)
           | Inr t \<Rightarrow>
               (case py_int (dict_get_default t ''expires_in'' (JInt 3600)) of
                  Inl e \<Rightarrow> (Inl e, w)
                | Inr expires_in \<Rightarrow>
                    (let tok = login_token t expires_in w
                     in case save_cache E tok w of
                          (Inl e, w') \<Rightarrow> (Inl e, w')
                        | (Inr u, w') \<Rightarrow> (Inr tok, w')))))"

definition poll_request :: "env \<Rightarrow> json \<Rightarrow> request" where
  "poll_request E device_code =
     \<lparr>url = TOKEN_URL, headers = [],
      body = Form [(''grant_type'', JStr ''urn:ietf:params:oauth:grant-type:device_code''),
                   (''client_id'', JStr (client_id E)),
                   (''device_code'', device_code)]\<rparr>"

text \<open>
  The loop \<^verbatim>\<open>while time.time() < deadline\<close> of \<^verbatim>\<open>device_code_login\<close>. The first
  argument bounds the number of iterations; \<open>None\<close> says that the loop was still running
  when the bound was reached. Otherwise the result is what the function returns or
  raises at the end of the loop.
\<close>

definition expired_error :: exn where
  "expired_error = TimeoutError ''Device code expired before you finished signing in.''"

fun poll_loop ::
  "nat \<Rightarrow> env \<Rightarrow> (string \<times> json) list \<Rightarrow> real \<Rightarrow> int \<Rightarrow> world
     \<Rightarrow> ((exn + TokenSet) \<times> world) option" where
  "poll_loop 0 E dc deadline interval w = None"
| "poll_loop (Suc n) E dc deadline interval w =
     (if \<not> clock w < deadline then
        Some (Inl expired_error, w)
      else
        (case time_sleep E interval w of
           (Inl e, w1) \<Rightarrow> Some (Inl e, w1)
         | (Inr u, w1) \<Rightarrow>
             (case dict_index dc ''device_code'' of
                Inl e \<Rightarrow> Some (Inl e, w1)
              | Inr device_code \<Rightarrow>
                  (case requests_post E (poll_request E device_code) w1 of
                     (Inl e, w2) \<Rightarrow> Some (Inl e, w2)
                   | (Inr tr, w2) \<Rightarrow>
                       if status_code tr = 200 then Some (poll_success E tr w2)
                       else
                         (case resp_json tr of
                            Inl e \<Rightarrow> Some (Inl e, w2)
                          | Inr bj \<Rightarrow>
                              (case as_dict bj of
                                 Inl e \<Rightarrow> Some (Inl e, w2)
                               | Inr b \<Rightarrow>
                                   (let err = dict_get b ''error'' in
                                    if err = JStr ''authorization_pending'' \<or> err = JStr ''slow_down''
                                    then poll_loop n E dc deadline
                                           (if err = JStr ''slow_down'' then interval + 5 else interval) w2
                                    else Some (Inl (RuntimeError ''Device code token failed: ''), w2))))))))"

text \<open>The start of \<^verbatim>\<open>device_code_login\<close>: the device-code request, the instruction
  printed for the user (which reads \<^verbatim>\<open>dc['verification_uri']\<close> and \<^verbatim>\<open>dc['user_code']\<close>
  when there is no \<^verbatim>\<open>message\<close>), the interval and the deadline.\<close>

definition device_code_request :: "env \<Rightarrow> request" where
  "device_code_request E =
     \<lparr>url = DEVICE_CODE_URL, headers = [],
      body = Form [(''client_id'', JStr (client_id E)), (''scope'', JStr SCOPES)]\<rparr>"

definition instruction_check :: "(string \<times> json) list \<Rightarrow> exn + unit" where
  "instruction_check dc =
     (if truthy (dict_get dc ''message'') then Inr ()
      else (case dict_index dc ''verification_uri'' of
              Inl e \<Rightarrow> Inl e
            | Inr v \<Rightarrow> (case dict_index dc ''user_code'' of Inl e \<Rightarrow> Inl e | Inr c \<Rightarrow> Inr ())))"

definition device_code_login ::
  "nat \<Rightarrow> env \<Rightarrow> world \<Rightarrow> ((exn + TokenSet) \<times> world) option" where
  "device_code_login fuel E w =
     (case requests_post E (device_code_request E) w of
        (Inl e, w1) \<Rightarrow> Some (Inl e, w1)
      | (Inr r, w1) \<Rightarrow>
          if status_code r \<noteq> 200 then Some (Inl (RuntimeError ''Device code request failed. ''), w1)
          else
            (case resp_json r of
               Inl e \<Rightarrow> Some (Inl e, w1)
             | Inr dj \<Rightarrow>
                 (case as_dict dj of
                    Inl e \<Rightarrow> Some (Inl e, w1)
                  | Inr dc \<Rightarrow>
                      (case instruction_check dc of
                         Inl e \<Rightarrow> Some (Inl e, w1)
                       | Inr u \<Rightarrow>
                           (case py_int (dict_get_default dc ''interval'' (JInt 5)) of
                              Inl e \<Rightarrow> Some (Inl e, w1)
                            | Inr interval \<Rightarrow>
                                (case py_int (dict_get_default dc ''expires_in'' (JInt 900)) of
                                   Inl e \<Rightarrow> Some (Inl e, w1)
                                 | Inr expires_in \<Rightarrow>
                                     poll_loop fuel E dc (clock w1 + of_int expires_in)
                                       interval w1))))))"

text \<open>\<^verbatim>\<open>refresh(tok)\<close>\<close>

definition refresh_request :: "env \<Rightarrow> TokenSet \<Rightarrow> request" where
  "refresh_request E tok =
     \<lparr>url = TOKEN_URL, headers = [],
      body = Form [(''client_id'', JStr (client_id E)),
                   (''grant_type'', JStr ''refresh_token''),
                   (''refresh_token'', refresh_token tok),
                   (''scope'', JStr SCOPES)]\<rparr>"

definition refreshed_token :: "TokenSet \<Rightarrow> (string \<times> json) list \<Rightarrow> int \<Rightarrow> world \<Rightarrow> TokenSet" where
  "refreshed_token tok t expires_in w =
     \<lparr>access_token = dict_get t ''access_token'',
      refresh_token = py_or (dict_get t ''refresh_token'') (refresh_token tok),
      id_token = py_or (dict_get t ''id_token'') (id_token tok),
      expires_at = JInt (int_time w + expires_in),
      scope = py_or (dict_get t ''scope'') (scope tok),
      token_type = py_or (dict_get t ''token_type'') (token_type tok)\<rparr>"

definition refresh :: "env \<Rightarrow> TokenSet \<Rightarrow> world \<Rightarrow> (exn + TokenSet) \<times> world" where
  "refresh E tok w =
     (if \<not> truthy (refresh_token tok) then
        (Inl (RuntimeError ''No refresh_token in cache; need interactive device login.''), w)
      else
        (case requests_post E (refresh_request E tok) w of
           (Inl e, w1) \<Rightarrow> (Inl e, w1)
         | (Inr r, w1) \<Rightarrow>
             if status_code r \<noteq> 200 then (Inl (RuntimeError ''Refresh failed: ''), w1)
             else
               (case resp_json r of
                  Inl e \<Rightarrow> (Inl e, w1)
                | Inr tj \<Rightarrow>
                    (case as_dict tj of
                       Inl e \<Rightarrow> (Inl e, w1)
                     | Inr t \<Rightarrow>
                         (case py_int (dict_get_default t ''expires_in'' (JInt 3600)) of
                            Inl e \<Rightarrow> (Inl e, w1)
                          | Inr expires_in \<Rightarrow>
                              (let new_tok = refreshed_token tok t expires_in w1
                               in case save_cache E new_tok w1 of
                                    (Inl e, w2) \<Rightarrow> (Inl e, w2)
                                  | (Inr u, w2) \<Rightarrow> (Inr new_tok, w2)))))))"

text \<open>\<^verbatim>\<open>get_token()\<close>. The second component of a result is the mode:
  \<^verbatim>\<open>cached_access\<close>, \<^verbatim>\<open>refreshed\<close> or \<^verbatim>\<open>device_login\<close>.\<close>

definition login_mode ::
  "nat \<Rightarrow> env \<Rightarrow> world \<Rightarrow> ((exn + TokenSet \<times> string) \<times> world) option" where
  "login_mode fuel E w =
     (case device_code_login fuel E w of
        None \<Rightarrow> None
      | Some (Inl e, w') \<Rightarrow> Some (Inl e, w')
      | Some (Inr tok, w') \<Rightarrow> Some (Inr (tok, ''device_login''), w'))"

definition refresh_or_login ::
  "nat \<Rightarrow> env \<Rightarrow> TokenSet option \<Rightarrow> world \<Rightarrow> ((exn + TokenSet \<times> string) \<times> world) option" where
  "refresh_or_login fuel E cached w =
     (case cached of
        None \<Rightarrow> login_mode fuel E w
      | Some tok \<Rightarrow>
          if truthy (refresh_token tok) then
            (case refresh E tok w of
               (Inr new_tok, w') \<Rightarrow> Some (Inr (new_tok, ''refreshed''), w')
             | (Inl e, w') \<Rightarrow> login_mode fuel E w')
          else login_mode fuel E w)"

definition get_token ::
  "nat \<Rightarrow> env \<Rightarrow> world \<Rightarrow> ((exn + TokenSet \<times> string) \<times> world) option" where
  "get_token fuel E w =
     (case load_cache E w of
        Inl e \<Rightarrow> Some (Inl e, w)
      | Inr None \<Rightarrow> refresh_or_login fuel E None w
      | Inr (Some tok) \<Rightarrow>
          (case is_access_token_valid tok w of
             Inl e \<Rightarrow> Some (Inl e, w)
           | Inr True \<Rightarrow> Some (Inr (tok, ''cached_access''), w)
           | Inr False \<Rightarrow> refresh_or_login fuel E (Some tok) w))"

section \<open>The stand-alone poll loop (msal.py)\<close>

text \<open>
  The script \<^verbatim>\<open>msal.py\<close> runs the same device-code flow at module level with a fixed
  client id. Its loop polls first and sleeps after a pending answer, for
  \<^verbatim>\<open>interval + (5 if e.get("error") == "slow_down" else 0)\<close> seconds; \<^verbatim>\<open>interval\<close> itself
  is never assigned in the loop. A result \<open>Inr ()\<close> is the \<^verbatim>\<open>break\<close> after a success.
\<close>

definition MSAL_CLIENT_ID :: string where
  "MSAL_CLIENT_ID = ''04b07795-8ddb-461a-bbee-02f9e1bf7b46''"

definition msal_poll_request :: "json \<Rightarrow> request" where
  "msal_poll_request device_code =
     \<lparr>url = TOKEN_URL, headers = [],
      body = Form [(''grant_type'', JStr ''urn:ietf:params:oauth:grant-type:device_code''),
                   (''client_id'', JStr MSAL_CLIENT_ID),
                   (''device_code'', device_code)]\<rparr>"

fun msal_poll_loop ::
  "nat \<Rightarrow> env \<Rightarrow> (string \<times> json) list \<Rightarrow> real \<Rightarrow> int \<Rightarrow> world
     \<Rightarrow> ((exn + unit) \<times> world) option" where
  "msal_poll_loop 0 E j deadline interval w = None"
| "msal_poll_loop (Suc n) E j deadline interval w =
     (if \<not> clock w < deadline then Some (Inl (TimeoutError ''Device code expired.''), w)
      else
        (case dict_index j ''device_code'' of
           Inl e \<Rightarrow> Some (Inl e, w)
         | Inr device_code \<Rightarrow>
             (case requests_post E (msal_poll_request device_code) w of
                (Inl e, w1) \<Rightarrow> Some (Inl e, w1)
              | (Inr tok, w1) \<Rightarrow>
                  if status_code tok = 200 then
                    (case resp_json tok of
                       Inl e \<Rightarrow> Some (Inl e, w1)
                     | Inr tj \<Rightarrow>
                         (case as_dict tj of
                            Inl e \<Rightarrow> Some (Inl e, w1)
                          | Inr t \<Rightarrow> Some (Inr (), w1)))
                  else
                    (case resp_json tok of
                       Inl e \<Rightarrow> Some (Inl e, w1)
                     | Inr ej \<Rightarrow>
                         (case as_dict ej of
                            Inl e \<Rightarrow> Some (Inl e, w1)
                          | Inr e \<Rightarrow>
                              (let err = dict_get e ''error'' in
                               if err = JStr ''authorization_pending'' \<or> err = JStr ''slow_down''
                               then
                                 (case time_sleep E
                                         (interval + (if err = JStr ''slow_down'' then 5 else 0)) w1 of
                                    (Inl x, w2) \<Rightarrow> Some (Inl x, w2)
                                  | (Inr u, w2) \<Rightarrow> msal_poll_loop n E j deadline interval w2)
                               else Some (Inl (RuntimeError ''''), w1)))))))"

text \<open>The world after one iteration of this loop that sends a request and then sleeps.\<close>

definition polled_and_slept :: "env \<Rightarrow> request \<Rightarrow> int \<Rightarrow> world \<Rightarrow> world" where
  "polled_and_slept E rq secs w = snd (time_sleep E secs (snd (requests_post E rq w)))"

definition msal_device_code_request :: request where
  "msal_device_code_request =
     \<lparr>url = DEVICE_CODE_URL, headers = [],
      body = Form [(''client_id'', JStr MSAL_CLIENT_ID), (''scope'', JStr SCOPES)]\<rparr>"

definition msal_main :: "nat \<Rightarrow> env \<Rightarrow> world \<Rightarrow> ((exn + unit) \<times> world) option" where
  "msal_main fuel E w =
     (case requests_post E msal_device_code_request w of
        (Inl e, w1) \<Rightarrow> Some (Inl e, w1)
      | (Inr dc, w1) \<Rightarrow>
          if 400 \<le> status_code dc \<and> status_code dc < 600 then Some (Inl HTTPError, w1)
          else
            (case resp_json dc of
               Inl e \<Rightarrow> Some (Inl e, w1)
             | Inr jj \<Rightarrow>
                 (case jj of
                    JObj j \<Rightarrow>
                      (case dict_index j ''message'' of
                         Inl e \<Rightarrow> Some (Inl e, w1)
                       | Inr m \<Rightarrow>
                           (case py_int (dict_get_default j ''interval'' (JInt 5)) of
                              Inl e \<Rightarrow> Some (Inl e, w1)
                            | Inr interval \<Rightarrow>
                                (case py_int (dict_get_default j ''expires_in'' (JInt 900)) of
                                   Inl e \<Rightarrow> Some (Inl e, w1)
                                 | Inr expires_in \<Rightarrow>
                                     msal_poll_loop fuel E j (clock w1 + of_int expires_in)
                                       interval w1)))
                  | _ \<Rightarrow> Some (Inl TypeError, w1))))"

section \<open>Answers of the token endpoint\<close>

text \<open>\<open>error_reply code rp\<close>: the call returns a response that is not a 200 and whose body is
  an object with \<^verbatim>\<open>"error": code\<close>, as the identity provider answers a poll with
  \<^verbatim>\<open>authorization_pending\<close> or \<^verbatim>\<open>slow_down\<close>.\<close>

definition error_reply :: "string \<Rightarrow> reply \<Rightarrow> bool" where
  "error_reply code rp =
     (case outcome rp of
        Inl e \<Rightarrow> False
      | Inr r \<Rightarrow>
          status_code r \<noteq> 200
          \<and> (case payload r of
                Some (JObj b) \<Rightarrow> dict_get b ''error'' = JStr code
              | _ \<Rightarrow> False))"

text \<open>The world after one iteration of the poll loop that sleeps and then sends a request.\<close>

definition slept_and_polled :: "env \<Rightarrow> int \<Rightarrow> request \<Rightarrow> world \<Rightarrow> world" where
  "slept_and_polled E interval rq w = snd (requests_post E rq (snd (time_sleep E interval w)))"

section \<open>An instance of the environment, for evaluation\<close>

text \<open>
  Concrete values of the parameters, used where a statement is evaluated on an example.
  \<open>demo_dumps\<close> prints a value as \<^verbatim>\<open>json.dumps(_, indent=2)\<close> does, and \<open>demo_loads\<close>
  parses JSON text, for the part of JSON without floating-point numbers, with the string
  escapes \<^verbatim>\<open>\"\<close>, \<^verbatim>\<open>\\\<close>, \<^verbatim>\<open>\/\<close> and \<^verbatim>\<open>\n\<close> only, on ASCII text. A key that occurs
  twice in an object keeps its first place and its last value, as in a Python
  dictionary.
\<close>

definition dquote :: char where
  "dquote = CHR 0x22"

definition backslash :: char where
  "backslash = CHR 0x5C"

definition newline :: "nat \<Rightarrow> string" where
  "newline level = CHR 0x0A # replicate (2 * level) (CHR '' '')"

fun escape :: "string \<Rightarrow> string" where
  "escape [] = []"
| "escape (c # cs) =
     (if c = dquote \<or> c = backslash then [backslash, c]
      else if c = CHR 0x0A then [backslash, CHR ''n'']
      else [c]) @ escape cs"

definition quoted :: "string \<Rightarrow> string" where
  "quoted s = dquote # escape s @ [dquote]"

fun dumps_at :: "nat \<Rightarrow> json \<Rightarrow> string" where
  "dumps_at level JNull = ''null''"
| "dumps_at level (JBool b) = (if b then ''true'' else ''false'')"
| "dumps_at level (JInt i) = str_int i"
| "dumps_at level (JStr s) = quoted s"
| "dumps_at level (JArr xs) =
     (if xs = [] then ''[]''
      else ''['' @ newline (Suc level)
           @ join ('','' @ newline (Suc level)) (map (dumps_at (Suc level)) xs)
           @ newline level @ '']'')"
| "dumps_at level (JObj kvs) =
     (if kvs = [] then ''{}''
      else ''{'' @ newline (Suc level)
           @ join ('','' @ newline (Suc level))
               (map (\<lambda>kv. quoted (fst kv) @ '': '' @ dumps_at (Suc level) (snd kv)) kvs)
           @ newline level @ ''}'')"

definition demo_dumps :: "json \<Rightarrow> string" where
  "demo_dumps j = dumps_at 0 j"

fun skip_ws :: "string \<Rightarrow> string" where
  "skip_ws [] = []"
| "skip_ws (c # cs) =
     (if c \<in> {CHR 0x20, CHR 0x09, CHR 0x0A, CHR 0x0D} then skip_ws cs else c # cs)"

fun parse_string :: "string \<Rightarrow> string \<Rightarrow> (string \<times> string) option" where
  "parse_string [] acc = None"
| "parse_string [c] acc = (if c = dquote then Some (rev acc, []) else None)"
| "parse_string (c # e # es) acc =
     (if c = dquote then Some (rev acc, e # es)
      else if c = backslash then
        (if e = dquote \<or> e = backslash \<or> e = CHR ''/'' then parse_string es (e # acc)
         else if e = CHR ''n'' then parse_string es (CHR 0x0A # acc)
         else None)
      else parse_string (e # es) (c # acc))"

definition parse_number :: "string \<Rightarrow> (json \<times> string) option" where
  "parse_number s =
     (let neg = (s \<noteq> [] \<and> hd s = CHR ''-'');
          t = (if neg then tl s else s);
          ds = takeWhile (\<lambda>c. digit_value c \<noteq> None) t;
          rest = dropWhile (\<lambda>c. digit_value c \<noteq> None) t
      in if ds = [] \<or> (length ds > 1 \<and> hd ds = CHR ''0'')
            \<or> (rest \<noteq> [] \<and> hd rest \<in> {CHR ''.'', CHR ''e'', CHR ''E''}) then None
         else (case unsigned_of_str ds of
                 None \<Rightarrow> None
               | Some n \<Rightarrow> Some (JInt (if neg then - n else n), rest)))"

definition dict_set :: "(string \<times> json) list \<Rightarrow> string \<Rightarrow> json \<Rightarrow> (string \<times> json) list" where
  "dict_set d k v =
     (if k \<in> fst ` set d then map (\<lambda>kv. if fst kv = k then (k, v) else kv) d else d @ [(k, v)])"

fun parse_value :: "nat \<Rightarrow> string \<Rightarrow> (json \<times> string) option"
  and parse_elements :: "nat \<Rightarrow> string \<Rightarrow> json list \<Rightarrow> (json \<times> string) option"
  and parse_members :: "nat \<Rightarrow> string \<Rightarrow> (string \<times> json) list \<Rightarrow> (json \<times> string) option" where
  "parse_value 0 s = None"
| "parse_value (Suc n) s =
     (case skip_ws s of
        [] \<Rightarrow> None
      | c # cs \<Rightarrow>
          if c = dquote then
            (case parse_string cs [] of None \<Rightarrow> None | Some (x, rest) \<Rightarrow> Some (JStr x, rest))
          else if c = CHR ''['' then
            (case skip_ws cs of
               [] \<Rightarrow> None
             | d # ds \<Rightarrow> if d = CHR '']'' then Some (JArr [], ds) else parse_elements n cs [])
          else if c = CHR ''{'' then
            (case skip_ws cs of
               [] \<Rightarrow> None
             | d # ds \<Rightarrow> if d = CHR ''}'' then Some (JObj [], ds) else parse_members n cs [])
          else if take 4 (c # cs) = ''null'' then Some (JNull, drop 4 (c # cs))
          else if take 4 (c # cs) = ''true'' then Some (JBool True, drop 4 (c # cs))
          else if take 5 (c # cs) = ''false'' then Some (JBool False, drop 5 (c # cs))
          else parse_number (c # cs))"
| "parse_elements 0 s acc = None"
| "parse_elements (Suc n) s acc =
     (case parse_value n s of
        None \<Rightarrow> None
      | Some (x, rest) \<Rightarrow>
          (case skip_ws rest of
             [] \<Rightarrow> None
           | c # cs \<Rightarrow>
               if c = CHR '','' then parse_elements n cs (acc @ [x])
               else if c = CHR '']'' then Some (JArr (acc @ [x]), cs)
               else None))"
| "parse_members 0 s acc = None"
| "parse_members (Suc n) s acc =
     (case skip_ws s of
        [] \<Rightarrow> None
      | q # qs \<Rightarrow>
          if q \<noteq> dquote then None
          else
            (case parse_string qs [] of
               None \<Rightarrow> None
             | Some (k, rest) \<Rightarrow>
                 (case skip_ws rest of
                    [] \<Rightarrow> None
                  | c # cs \<Rightarrow>
                      if c \<noteq> CHR '':'' then None
                      else
                        (case parse_value n cs of
                           None \<Rightarrow> None
                         | Some (x, rest') \<Rightarrow>
                             (case skip_ws rest' of
                                [] \<Rightarrow> None
                              | e # es \<Rightarrow>
                                  if e = CHR '','' then parse_members n es (dict_set acc k x)
                                  else if e = CHR ''}'' then Some (JObj (dict_set acc k x), es)
                                  else None)))))"

definition demo_loads :: "string \<Rightarrow> json option" where
  "demo_loads s =
     (case parse_value (Suc (length s)) s of
        None \<Rightarrow> None
      | Some (j, rest) \<Rightarrow> if skip_ws rest = [] then Some j else None)"

text \<open>The environment with a given network, exact sleeps and the default cache path under
  a home directory; and a world with no files where nothing has been sent yet.\<close>

definition demo_env :: "(nat \<Rightarrow> request \<Rightarrow> reply) \<Rightarrow> env" where
  "demo_env network =
     \<lparr>net = network,
      oversleep = (\<lambda>n. 0),
      json_dumps = demo_dumps,
      json_loads = demo_loads,
      cache_path = ''/home/user/.config/msauth/device_token.json'',
      tmp_path = ''/home/user/.config/msauth/device_token.tmp'',
      client_id = ''00000000-0000-0000-0000-000000000000''\<rparr>"

definition demo_world :: world where
  "demo_world = \<lparr>clock = 1700000000, fs = Map.empty, sent = [], slept = [], trace = []\<rparr>"


definition net_401 :: "nat \<Rightarrow> request \<Rightarrow> reply" where
  "net_401 n rq = \<lparr>delay = 1 / 4, outcome = Inr \<lparr>status_code = 401, payload = None\<rparr>\<rparr>"

text \<open>A token as a login stores it, and a world whose cache file holds a JSON object that
  is not a token: \<^verbatim>\<open>expires_at\<close> is the string \<^verbatim>\<open>soon\<close>.\<close>

definition demo_token :: TokenSet where
  "demo_token =
     \<lparr>access_token = JStr ''AT-1'', refresh_token = JStr ''RT-1'', id_token = JNull,
      expires_at = JInt 1700003600, scope = JStr ''openid profile offline_access'',
      token_type = JStr ''Bearer''\<rparr>"

definition corrupt_cache_world :: world where
  "corrupt_cache_world =
     demo_world\<lparr>fs := [''/home/user/.config/msauth/device_token.json'' \<mapsto>
        File (demo_dumps (JObj [(''access_token'', JStr ''AT-1''), (''expires_at'', JStr ''soon'')]))
             384]\<rparr>"

text \<open>A network that answers every request with status 200 and a given document after a
  quarter of a second; three token responses: one that omits the refresh token, one with
  an empty \<^verbatim>\<open>scope\<close>, one whose token lives for 30 seconds; and a world at a given time
  whose cache file holds the token \<open>demo_token\<close>.\<close>

definition net_200 :: "json \<Rightarrow> nat \<Rightarrow> request \<Rightarrow> reply" where
  "net_200 doc n rq = \<lparr>delay = 1 / 4, outcome = Inr \<lparr>status_code = 200, payload = Some doc\<rparr>\<rparr>"

definition refresh_doc_plain :: "(string \<times> json) list" where
  "refresh_doc_plain = [(''access_token'', JStr ''AT-2''), (''expires_in'', JInt 3600)]"

definition refresh_doc_empty_scope :: "(string \<times> json) list" where
  "refresh_doc_empty_scope =
     [(''access_token'', JStr ''AT-2''), (''refresh_token'', JStr ''RT-2''),
      (''scope'', JStr []), (''expires_in'', JInt 3600)]"



text \<open>A device-code flow: the device-code endpoint answers with an interval of 5 and a
  lifetime of 20 seconds; the token endpoint answers the request sent after \<open>n\<close> others with
  the status and the document \<open>answers n\<close>. Every call takes \<open>d\<close> seconds.\<close>

definition demo_device_doc :: "(string \<times> json) list" where
  "demo_device_doc =
     [(''device_code'', JStr ''DEVICE-CODE''), (''user_code'', JStr ''ABCD-EFGH''),
      (''verification_uri'', JStr ''https://microsoft.com/link''),
      (''message'', JStr ''To sign in, open the page and enter the code.''),
      (''interval'', JInt 5), (''expires_in'', JInt 20)]"

definition net_flow :: "real \<Rightarrow> (nat \<Rightarrow> int \<times> json) \<Rightarrow> nat \<Rightarrow> request \<Rightarrow> reply" where
  "net_flow d answers n rq =
     \<lparr>delay = d,
      outcome = Inr (if url rq = DEVICE_CODE_URL
                     then \<lparr>status_code = 200, payload = Some (JObj demo_device_doc)\<rparr>
                     else \<lparr>status_code = fst (answers n), payload = Some (snd (answers n))\<rparr>)\<rparr>"

definition pending_answer :: "int \<times> json" where
  "pending_answer = (400, JObj [(''error'', JStr ''authorization_pending'')])"

definition slow_down_answer :: "int \<times> json" where
  "slow_down_answer = (400, JObj [(''error'', JStr ''slow_down'')])"

definition token_answer :: "int \<times> json" where
  "token_answer =
     (200, JObj [(''access_token'', JStr ''AT-1''), (''refresh_token'', JStr ''RT-1''),
                 (''expires_in'', JInt 3600)])"

text \<open>The token endpoint says \<^verbatim>\<open>slow_down\<close> to the first poll,
  \<^verbatim>\<open>authorization_pending\<close> to the second, and then issues the token (request 0 is the
  device-code request).\<close>

definition slow_down_once :: "nat \<Rightarrow> int \<times> json" where
  "slow_down_once n =
     (if n = 1 then slow_down_answer else if n < 3 then pending_answer else token_answer)"

section \<open>Properties of the candidate enumeration\<close>

lemma add_prefixed_append:
  "add_prefixed bs tickets =
     tickets @ filter (\<lambda>(l, t). t \<noteq> [])
       (concat (map (\<lambda>(l, b). [(''d='' @ l, ''d='' @ b), (''t='' @ l, ''t='' @ b)]) bs))"
  by (induction bs tickets rule: add_prefixed.induct) (simp_all add: add_def)

lemma fold_add_append:
  "fold (\<lambda>(label, t). add label t) bs tickets = tickets @ filter (\<lambda>(l, t). t \<noteq> []) bs"
  by (induction bs arbitrary: tickets) (auto simp: add_def)

lemma dedup_loop_keep_first:
  "dedup_loop ts seen uniq = uniq @ keep_first (filter (\<lambda>(l, t). t \<notin> seen) ts)"
proof (induction ts seen uniq rule: dedup_loop.induct)
  case (1 seen uniq)
  show ?case by simp
next
  case (2 lbl t rest seen uniq)
  have flt: "filter (\<lambda>(l', t'). t' \<noteq> t) (filter (\<lambda>(l, t). t \<notin> seen) rest)
             = filter (\<lambda>(l, t'). t' \<notin> insert t seen) rest"
    by (induction rest) auto
  show ?case
  proof (cases "t \<in> seen")
    case True
    with 2 show ?thesis by simp
  next
    case False
    with 2 flt show ?thesis by simp
  qed
qed

lemma keep_first_values: "snd ` set (keep_first ts) = snd ` set ts"
proof (induction ts rule: keep_first.induct)
  case 1
  show ?case by simp
next
  case (2 l t rest)
  have "snd ` set (filter (\<lambda>(l', t'). t' \<noteq> t) rest) = snd ` set rest - {t}"
    by force
  with 2 show ?case by auto
qed

lemma keep_first_distinct: "distinct (map snd (keep_first ts))"
proof (induction ts rule: keep_first.induct)
  case 1
  show ?case by simp
next
  case (2 l t rest)
  have "t \<notin> snd ` set (keep_first (filter (\<lambda>(l', t'). t' \<noteq> t) rest))"
    unfolding keep_first_values by force
  with 2 show ?case by simp
qed

lemma keep_first_subset: "set (keep_first ts) \<subseteq> set ts"
proof (induction ts rule: keep_first.induct)
  case 1
  show ?case by simp
next
  case (2 l t rest)
  then show ?case by auto
qed

lemma spec_forms_bases:
  "spec_forms unq qt tok (raw_fragment_of tok raw) =
     bases unq qt tok raw
     @ concat (map (\<lambda>(l, b). [(''d='' @ l, ''d='' @ b), (''t='' @ l, ''t='' @ b)])
         (bases unq qt tok raw))"
  unfolding spec_forms_def bases_def raw_fragment_decoded_of_def Let_def ..

lemma all_tickets_eq:
  "all_tickets unq qt tok raw =
     filter (\<lambda>(l, t). t \<noteq> []) (spec_forms unq qt tok (raw_fragment_of tok raw))"
  unfolding all_tickets_def Let_def add_prefixed_append fold_add_append spec_forms_bases
  by simp

lemma candidate_tickets_eq:
  "candidate_tickets unq qt tok raw =
     keep_first (filter (\<lambda>(l, t). t \<noteq> []) (spec_forms unq qt tok (raw_fragment_of tok raw)))"
  by (simp add: candidate_tickets_def dedup_loop_keep_first all_tickets_eq)

section \<open>The nested loops try the combinations in order\<close>

lemma combination_loop_append:
  "combination_loop E (xs @ ys) attempts w =
     (case combination_loop E xs attempts w of
        (Some res, attempts', w') \<Rightarrow> (Some res, attempts', w')
      | (None, attempts', w') \<Rightarrow> combination_loop E ys attempts' w')"
  by (induction xs arbitrary: attempts w) (auto split: prod.splits sum.splits)

lemma ticket_loop_flat:
  "ticket_loop E rp wc uniq attempts w =
     combination_loop E (map (\<lambda>t. (rp, wc, t)) uniq) attempts w"
  by (induction uniq arbitrary: attempts w)
     (auto simp: attempt_def combination_request_def combination_label_def
           split: prod.splits sum.splits)

lemma contract_loop_flat:
  "contract_loop E rp wcs uniq attempts w =
     combination_loop E (concat (map (\<lambda>wc. map (\<lambda>t. (rp, wc, t)) uniq) wcs)) attempts w"
  by (induction wcs arbitrary: attempts w)
     (auto simp: combination_loop_append ticket_loop_flat split: prod.splits option.splits)

lemma relying_party_loop_flat:
  "relying_party_loop E rps uniq attempts w =
     combination_loop E
       (concat (map (\<lambda>rp. concat (map (\<lambda>wc. map (\<lambda>t. (rp, wc, t)) uniq) [True, False])) rps))
       attempts w"
proof (induction rps arbitrary: attempts w)
  case Nil
  show ?case by simp
next
  case (Cons rp rps)
  show ?case
    unfolding relying_party_loop.simps list.map concat.simps combination_loop_append
      contract_loop_flat Cons.IH
    by (simp split: prod.splits option.splits)
qed

lemma xbl_user_authenticate_flat:
  "xbl_user_authenticate unq qt E tok raw w =
     (case combination_loop E (combinations (candidate_tickets unq qt tok raw)) [] w of
        (Some res, attempts, w') \<Rightarrow> (res, attempts, w')
      | (None, attempts, w') \<Rightarrow> (Inl (exhausted_error attempts), attempts, w'))"
  by (simp add: xbl_user_authenticate_def relying_party_loop_flat combinations_def Let_def)

lemma length_combinations: "length (combinations uniq) = 4 * length uniq"
  by (simp add: combinations_def relying_parties_def)


text \<open>When no combination is answered with status 200, every one is tried and recorded.\<close>

lemma combination_loop_exhausted:
  assumes "\<forall>i<length cs. \<exists>r. reply_at E w cs i = Inr r \<and> status_code r \<noteq> 200"
  shows "\<exists>w'. combination_loop E cs attempts w =
           (None,
            attempts @ map (\<lambda>i. (combination_label (cs ! i), projr (reply_at E w cs i))) [0..<length cs],
            w')
         \<and> sent w' = sent w @ map combination_request cs"
  using assms
proof (induction cs arbitrary: attempts w)
  case Nil
  show ?case by simp
next
  case (Cons c cs)
  from Cons.prems obtain r0 where r0: "reply_at E w (c # cs) 0 = Inr r0" "status_code r0 \<noteq> 200"
    by auto
  define w1 where "w1 = snd (requests_post E (combination_request c) w)"
  have sent1: "sent w1 = sent w @ [combination_request c]"
    by (simp add: w1_def requests_post_def Let_def)
  have shift: "reply_at E w1 cs i = reply_at E w (c # cs) (Suc i)" for i
    by (simp add: reply_at_def sent1)
  have step: "combination_loop E (c # cs) attempts w
                = combination_loop E cs (attempts @ [(combination_label c, r0)]) w1"
    using r0 by (simp add: reply_at_def requests_post_def Let_def w1_def)
  have "\<forall>i<length cs. \<exists>r. reply_at E w1 cs i = Inr r \<and> status_code r \<noteq> 200"
    using Cons.prems by (simp add: shift)
  from Cons.IH [OF this, of "attempts @ [(combination_label c, r0)]"]
  obtain w' where w': "combination_loop E cs (attempts @ [(combination_label c, r0)]) w1 =
           (None,
            (attempts @ [(combination_label c, r0)])
              @ map (\<lambda>i. (combination_label (cs ! i), projr (reply_at E w1 cs i))) [0..<length cs],
            w')"
      "sent w' = sent w1 @ map combination_request cs"
    by blast
  have idx: "map (\<lambda>i. (combination_label ((c # cs) ! i), projr (reply_at E w (c # cs) i)))
               [0..<length (c # cs)]
             = (combination_label c, r0)
               # map (\<lambda>i. (combination_label (cs ! i), projr (reply_at E w1 cs i))) [0..<length cs]"
    using r0 by (simp add: upt_conv_Cons map_Suc_upt [symmetric] shift del: upt_Suc)
  show ?case
    unfolding step idx using w' by (simp add: sent1)
qed

lemma candidate_tickets_not_empty: "candidate_tickets unq qt tok raw \<noteq> []"
proof -
  have "(''d=decoded'', ''d='' @ tok) \<in> set (spec_forms unq qt tok (raw_fragment_of tok raw))"
    by (simp add: spec_forms_def Let_def)
  then have "filter (\<lambda>(l, t). t \<noteq> []) (spec_forms unq qt tok (raw_fragment_of tok raw)) \<noteq> []"
    by (auto simp: filter_empty_conv)
  then show ?thesis
    unfolding candidate_tickets_eq
    by (cases "filter (\<lambda>(l, t). t \<noteq> []) (spec_forms unq qt tok (raw_fragment_of tok raw))") auto
qed

section \<open>The token cache\<close>

lemma from_json_to_json: "from_json (to_json tok) = Inr tok"
  by (simp add: from_json_def to_json_def as_dict_def dict_get_def)

lemma write_text_ok:
  "write_text p s w = (Inr (), w') \<Longrightarrow> \<exists>m. w' = w\<lparr>fs := (fs w)(p \<mapsto> File s m)\<rparr>"
  by (auto simp: write_text_def split: option.splits fnode.splits if_splits)

lemma write_text_writable:
  assumes "fs w p = None \<or> (\<exists>old m. fs w p = Some (File old m) \<and> owner_can_write m)"
  shows "\<exists>m. write_text p s w = (Inr (), w\<lparr>fs := (fs w)(p \<mapsto> File s m)\<rparr>)"
  using assms by (auto simp: write_text_def)

lemma chmod_file:
  "fs w p = Some (File s m) \<Longrightarrow> chmod p m' w = (Inr (), w\<lparr>fs := (fs w)(p \<mapsto> File s m')\<rparr>)"
  by (simp add: chmod_def)

lemma chmod_ok:
  "chmod p m' w = (Inr (), w') \<Longrightarrow> fs w p = Some (File s m) \<Longrightarrow> w' = w\<lparr>fs := (fs w)(p \<mapsto> File s m')\<rparr>"
  by (simp add: chmod_def)

lemma replace_path_ok:
  "replace_path src dst w = (Inr (), w') \<Longrightarrow>
     \<exists>node. fs w src = Some node \<and> w' = w\<lparr>fs := ((fs w)(src := None))(dst \<mapsto> node)\<rparr>"
  by (auto simp: replace_path_def split: option.splits fnode.splits)

lemma replace_path_file:
  "fs w src = Some node \<Longrightarrow> fs w dst \<noteq> Some Dir \<Longrightarrow>
     replace_path src dst w = (Inr (), w\<lparr>fs := ((fs w)(src := None))(dst \<mapsto> node)\<rparr>)"
  by (auto simp: replace_path_def split: option.splits fnode.splits)

lemma write_secure_result:
  assumes "write_secure E data w = (Inr (), w')"
  shows "fs w' (cache_path E) = Some (File (json_dumps E data) 384)"
    and "sent w' = sent w" and "clock w' = clock w" and "slept w' = slept w"
    and "trace w' = trace w"
proof -
  obtain r1 w1 where s1: "write_text (tmp_path E) (json_dumps E data) w = (r1, w1)"
    by (cases "write_text (tmp_path E) (json_dumps E data) w")
  obtain r2 w2 where s2: "chmod (tmp_path E) 384 w1 = (r2, w2)"
    by (cases "chmod (tmp_path E) 384 w1")
  from assms s1 have r1: "r1 = Inr ()"
    by (cases r1) (simp_all add: write_secure_def)
  from assms s1 s2 r1 have r2: "r2 = Inr ()"
    by (cases r2) (simp_all add: write_secure_def)
  from assms s1 s2 r1 r2 have s3: "replace_path (tmp_path E) (cache_path E) w2 = (Inr (), w')"
    by (simp add: write_secure_def)
  from write_text_ok [OF s1 [unfolded r1]] obtain m
    where w1: "w1 = w\<lparr>fs := (fs w)(tmp_path E \<mapsto> File (json_dumps E data) m)\<rparr>"
    by blast
  then have "fs w1 (tmp_path E) = Some (File (json_dumps E data) m)"
    by simp
  from chmod_ok [OF s2 [unfolded r2] this]
  have w2: "w2 = w1\<lparr>fs := (fs w1)(tmp_path E \<mapsto> File (json_dumps E data) 384)\<rparr>" .
  from replace_path_ok [OF s3] obtain node
    where node: "fs w2 (tmp_path E) = Some node"
      and w': "w' = w2\<lparr>fs := ((fs w2)(tmp_path E := None))(cache_path E \<mapsto> node)\<rparr>"
    by blast
  from node w2 have "node = File (json_dumps E data) 384"
    by simp
  with w' show "fs w' (cache_path E) = Some (File (json_dumps E data) 384)"
    by simp
  from w' w2 w1 show "sent w' = sent w" and "clock w' = clock w" and "slept w' = slept w"
    and "trace w' = trace w"
    by simp_all
qed

lemma write_secure_succeeds:
  assumes "fs w (tmp_path E) = None
           \<or> (\<exists>old m. fs w (tmp_path E) = Some (File old m) \<and> owner_can_write m)"
    and "fs w (cache_path E) \<noteq> Some Dir"
  shows "\<exists>w'. write_secure E data w = (Inr (), w')"
proof -
  from write_text_writable [OF assms(1)] obtain m
    where s1: "write_text (tmp_path E) (json_dumps E data) w
                 = (Inr (), w\<lparr>fs := (fs w)(tmp_path E \<mapsto> File (json_dumps E data) m)\<rparr>)"
    by blast
  define w1 where "w1 = w\<lparr>fs := (fs w)(tmp_path E \<mapsto> File (json_dumps E data) m)\<rparr>"
  have f1: "fs w1 (tmp_path E) = Some (File (json_dumps E data) m)"
    by (simp add: w1_def)
  define w2 where "w2 = w1\<lparr>fs := (fs w1)(tmp_path E \<mapsto> File (json_dumps E data) 384)\<rparr>"
  have s2: "chmod (tmp_path E) 384 w1 = (Inr (), w2)"
    unfolding w2_def using f1 by (rule chmod_file)
  have f2: "fs w2 (tmp_path E) = Some (File (json_dumps E data) 384)"
    by (simp add: w2_def)
  have "fs w2 (cache_path E) \<noteq> Some Dir"
    using assms(2) by (simp add: w2_def w1_def)
  from replace_path_file [OF f2 this]
  have s3: "\<exists>w'. replace_path (tmp_path E) (cache_path E) w2 = (Inr (), w')"
    by blast
  show ?thesis
    unfolding write_secure_def s1 w1_def [symmetric] using s2 s3 by simp
qed

lemma load_cache_of_file:
  assumes "fs w (cache_path E) = Some (File s m)" and "owner_can_read m"
  shows "load_cache E w =
           Inr (case json_loads E s of
                  None \<Rightarrow> None
                | Some d \<Rightarrow> (case from_json d of Inl e \<Rightarrow> None | Inr tok \<Rightarrow> Some tok))"
  using assms
  by (simp add: load_cache_def load_cache_body_def path_exists_def read_text_def
           split: option.splits sum.splits)



lemma load_cache_unreadable:
  "fs w (cache_path E) = Some (File s m) \<Longrightarrow> \<not> owner_can_read m \<Longrightarrow> load_cache E w = Inr None"
  by (simp add: load_cache_def load_cache_body_def path_exists_def read_text_def)

lemma load_cache_directory: "fs w (cache_path E) = Some Dir \<Longrightarrow> load_cache E w = Inr None"
  by (simp add: load_cache_def load_cache_body_def path_exists_def read_text_def)

lemma load_cache_not_json:
  "fs w (cache_path E) = Some (File s m) \<Longrightarrow> json_loads E s = None \<Longrightarrow> load_cache E w = Inr None"
  by (simp add: load_cache_def load_cache_body_def path_exists_def read_text_def)

lemma load_cache_not_object:
  "fs w (cache_path E) = Some (File s m) \<Longrightarrow> json_loads E s = Some d \<Longrightarrow> as_dict d = Inl e
     \<Longrightarrow> load_cache E w = Inr None"
  by (simp add: load_cache_def load_cache_body_def path_exists_def read_text_def from_json_def)

section \<open>The credential policy, step by step\<close>



lemma get_token_check_raises:
  "load_cache E w = Inr (Some tok) \<Longrightarrow> is_access_token_valid tok w = Inl e
     \<Longrightarrow> get_token fuel E w = Some (Inl e, w)"
  by (simp add: get_token_def)







lemma requests_post_result:
  "requests_post E rq w =
     (outcome (net E (length (sent w)) rq),
      w\<lparr>clock := clock w + delay (net E (length (sent w)) rq), sent := sent w @ [rq],
        trace := trace w @ [Sent rq]\<rparr>)"
  by (simp add: requests_post_def Let_def)

lemma requests_post_world:
  assumes "requests_post E rq w = (res, w1)"
  shows "res = outcome (net E (length (sent w)) rq)"
    and "sent w1 = sent w @ [rq]"
    and "clock w1 = clock w + delay (net E (length (sent w)) rq)"
    and "fs w1 = fs w" and "slept w1 = slept w"
    and "trace w1 = trace w @ [Sent rq]"
  using assms by (auto simp: requests_post_result)

text \<open>\<^verbatim>\<open>refresh\<close> on a response that is not 200, and on a token response.\<close>

lemma refresh_not_200:
  assumes "truthy (refresh_token tok)"
    and "requests_post E (refresh_request E tok) w = (Inr r, w1)"
    and "status_code r \<noteq> 200"
  shows "refresh E tok w = (Inl (RuntimeError ''Refresh failed: ''), w1)"
  using assms by (simp add: refresh_def)

lemma refresh_200:
  assumes "truthy (refresh_token tok)"
    and "requests_post E (refresh_request E tok) w = (Inr r, w1)"
    and "status_code r = 200"
    and "payload r = Some (JObj t)"
    and "py_int (dict_get_default t ''expires_in'' (JInt 3600)) = Inr n"
  shows "refresh E tok w =
           (case save_cache E (refreshed_token tok t n w1) w1 of
              (Inl e, w2) \<Rightarrow> (Inl e, w2)
            | (Inr u, w2) \<Rightarrow> (Inr (refreshed_token tok t n w1), w2))"
  using assms
  by (simp add: refresh_def resp_json_def as_dict_def Let_def)

lemma refresh_returns:
  assumes "refresh E tok w = (Inr new_tok, w')"
    and "requests_post E (refresh_request E tok) w = (Inr r, w1)"
  shows "status_code r = 200 \<and>
         (\<exists>t n. payload r = Some (JObj t)
            \<and> py_int (dict_get_default t ''expires_in'' (JInt 3600)) = Inr n
            \<and> new_tok = refreshed_token tok t n w1
            \<and> save_cache E new_tok w1 = (Inr (), w'))"
proof -
  from assms(1) have rt: "truthy (refresh_token tok)"
    by (auto simp: refresh_def split: if_splits)
  have ok: "status_code r = 200"
  proof (rule ccontr)
    assume "status_code r \<noteq> 200"
    from refresh_not_200 [OF rt assms(2) this] assms(1) show False by simp
  qed
  from assms(1) rt assms(2) ok obtain tj where tj: "payload r = Some tj"
    by (cases "payload r") (auto simp: refresh_def resp_json_def)
  from assms(1) rt assms(2) ok tj obtain t where t: "tj = JObj t"
    by (cases tj) (auto simp: refresh_def resp_json_def as_dict_def)
  from assms(1) rt assms(2) ok tj t obtain n
    where n: "py_int (dict_get_default t ''expires_in'' (JInt 3600)) = Inr n"
    by (cases "py_int (dict_get_default t ''expires_in'' (JInt 3600))")
       (auto simp: refresh_def resp_json_def as_dict_def)
  from refresh_200 [OF rt assms(2) ok tj [unfolded t] n] assms(1)
  have "new_tok = refreshed_token tok t n w1 \<and> save_cache E new_tok w1 = (Inr (), w')"
    by (auto split: prod.splits sum.splits)
  with ok tj t n show ?thesis by blast
qed

section \<open>The poll loop of device_code_login, one iteration at a time\<close>

lemma error_replyD:
  assumes "error_reply c rp"
  obtains r b where "outcome rp = Inr r" and "status_code r \<noteq> 200"
    and "payload r = Some (JObj b)" and "dict_get b ''error'' = JStr c"
proof -
  from assms obtain r where r: "outcome rp = Inr r"
    by (cases "outcome rp") (simp_all add: error_reply_def)
  with assms have s: "status_code r \<noteq> 200"
    by (simp add: error_reply_def)
  from assms r obtain j where j: "payload r = Some j"
    by (cases "payload r") (simp_all add: error_reply_def)
  from assms r j obtain b where b: "j = JObj b"
    by (cases j) (simp_all add: error_reply_def)
  from assms r j b have "dict_get b ''error'' = JStr c"
    by (simp add: error_reply_def)
  with r s j b that show thesis by blast
qed

lemma time_sleep_ok:
  "0 \<le> secs \<Longrightarrow>
     time_sleep E secs w =
       (Inr (), w\<lparr>clock := clock w + of_int secs + oversleep E (length (slept w)),
                  slept := slept w @ [secs], trace := trace w @ [Slept secs]\<rparr>)"
  by (simp add: time_sleep_def)

lemma slept_and_polled_fields:
  assumes "0 \<le> interval"
  shows "clock (slept_and_polled E interval rq w) =
           clock w + of_int interval + oversleep E (length (slept w))
             + delay (net E (length (sent w)) rq)"
    and "sent (slept_and_polled E interval rq w) = sent w @ [rq]"
    and "slept (slept_and_polled E interval rq w) = slept w @ [interval]"
    and "trace (slept_and_polled E interval rq w) = trace w @ [Slept interval, Sent rq]"
    and "fs (slept_and_polled E interval rq w) = fs w"
  using assms
  by (simp_all add: slept_and_polled_def time_sleep_ok requests_post_result)

lemma poll_loop_expired:
  "\<not> clock w < deadline \<Longrightarrow>
     poll_loop (Suc n) E dc deadline interval w =
       Some (Inl expired_error, w)"
  by simp

lemma poll_loop_continue:
  assumes "clock w < deadline" and "0 \<le> interval"
    and "dict_index dc ''device_code'' = Inr code"
    and "error_reply c (net E (length (sent w)) (poll_request E code))"
    and "c = ''authorization_pending'' \<or> c = ''slow_down''"
  shows "poll_loop (Suc n) E dc deadline interval w =
           poll_loop n E dc deadline (if c = ''slow_down'' then interval + 5 else interval)
             (slept_and_polled E interval (poll_request E code) w)"
proof -
  define ws where "ws = snd (time_sleep E interval w)"
  have sl: "time_sleep E interval w = (Inr (), ws)"
    unfolding ws_def using assms(2) by (simp add: time_sleep_ok)
  have sn: "sent ws = sent w"
    unfolding ws_def using assms(2) by (simp add: time_sleep_ok)
  from assms(4) obtain r b where
    r: "outcome (net E (length (sent w)) (poll_request E code)) = Inr r"
    and st: "status_code r \<noteq> 200"
    and pl: "payload r = Some (JObj b)"
    and er: "dict_get b ''error'' = JStr c"
    by (rule error_replyD)
  define wp where "wp = slept_and_polled E interval (poll_request E code) w"
  have po: "requests_post E (poll_request E code) ws = (Inr r, wp)"
    unfolding wp_def slept_and_polled_def ws_def [symmetric]
    by (simp add: requests_post_result sn r)
  have js: "resp_json r = Inr (JObj b)"
    by (simp add: resp_json_def pl)
  have ad: "as_dict (JObj b) = Inr b"
    by (simp add: as_dict_def)
  show ?thesis
    unfolding wp_def [symmetric]
    using assms(1) assms(3) assms(5) st er
    by (simp add: sl po js ad Let_def)
qed


text \<open>
  The loop against a token endpoint that always answers \<^verbatim>\<open>authorization_pending\<close>: when
  the deadline is at most \<open>m\<close> intervals away, the loop ends with the timeout error after
  at most \<open>m\<close> iterations, each a sleep of the interval followed by one poll, not before
  the deadline, and less than one interval plus the extra time of the last sleep and of the
  last poll after it.
\<close>

lemma poll_loop_all_pending:
  assumes code: "dict_index dc ''device_code'' = Inr code"
    and pend: "\<forall>n. error_reply ''authorization_pending'' (net E n (poll_request E code))"
    and dl: "\<forall>n rq. 0 \<le> delay (net E n rq)"
    and os: "\<forall>n. 0 \<le> oversleep E n"
    and iv: "0 < interval"
  shows "deadline - clock w \<le> of_int interval * of_nat m \<Longrightarrow> m < fuel \<Longrightarrow>
     \<exists>w' k. poll_loop fuel E dc deadline interval w = Some (Inl expired_error, w')
       \<and> k \<le> m \<and> (clock w < deadline \<longrightarrow> 1 \<le> k) \<and> (k = 0 \<longrightarrow> w' = w)
       \<and> slept w' = slept w @ replicate k interval
       \<and> sent w' = sent w @ replicate k (poll_request E code)
       \<and> trace w' = trace w @ concat (replicate k [Slept interval, Sent (poll_request E code)])
       \<and> fs w' = fs w
       \<and> deadline \<le> clock w'
       \<and> (1 \<le> k \<longrightarrow>
            clock w' < deadline + of_int interval + oversleep E (length (slept w') - 1)
                        + delay (net E (length (sent w') - 1) (poll_request E code)))"
proof (induction m arbitrary: fuel w)
  case 0
  then obtain f where f: "fuel = Suc f"
    by (cases fuel) simp_all
  from 0 have late: "\<not> clock w < deadline"
    by simp
  then have "poll_loop fuel E dc deadline interval w = Some (Inl expired_error, w)"
    unfolding f by (rule poll_loop_expired)
  with late show ?case
    by (intro exI [of _ w] exI [of _ "0::nat"]) simp
next
  case (Suc m)
  then obtain f where f: "fuel = Suc f" and mf: "m < f"
    by (cases fuel) simp_all
  show ?case
  proof (cases "clock w < deadline")
    case False
    then have "poll_loop fuel E dc deadline interval w = Some (Inl expired_error, w)"
      unfolding f by (rule poll_loop_expired)
    with False show ?thesis
      by (intro exI [of _ w] exI [of _ "0::nat"]) simp
  next
    case True
    define rq where "rq = poll_request E code"
    define w1 where "w1 = slept_and_polled E interval rq w"
    from iv have iv0: "0 \<le> interval" by simp
    note fields = slept_and_polled_fields [OF iv0, of E rq w, folded w1_def]
    have pending: "error_reply ''authorization_pending'' (net E (length (sent w)) (poll_request E code))"
      using pend by simp
    have step: "poll_loop fuel E dc deadline interval w = poll_loop f E dc deadline interval w1"
      unfolding f w1_def rq_def
      using poll_loop_continue [OF True iv0 code pending, of f] by simp
    have extra: "0 \<le> oversleep E (length (slept w)) + delay (net E (length (sent w)) rq)"
      using dl os by (simp add: add_nonneg_nonneg)
    have c1: "clock w1 = clock w + of_int interval + oversleep E (length (slept w))
                + delay (net E (length (sent w)) rq)"
      by (rule fields(1))
    have "of_int interval * of_nat (Suc m) = of_int interval * of_nat m + (of_int interval :: real)"
      by (simp add: algebra_simps)
    with Suc.prems(1) c1 extra have near: "deadline - clock w1 \<le> of_int interval * of_nat m"
      by linarith
    from Suc.IH [OF near mf] obtain w' k where
      res: "poll_loop f E dc deadline interval w1 = Some (Inl expired_error, w')"
      and km: "k \<le> m"
      and k0: "k = 0 \<longrightarrow> w' = w1"
      and sl: "slept w' = slept w1 @ replicate k interval"
      and sn: "sent w' = sent w1 @ replicate k (poll_request E code)"
      and tr: "trace w' = trace w1 @ concat (replicate k [Slept interval, Sent (poll_request E code)])"
      and fl: "fs w' = fs w1"
      and late: "deadline \<le> clock w'"
      and upper: "1 \<le> k \<longrightarrow>
            clock w' < deadline + of_int interval + oversleep E (length (slept w') - 1)
                        + delay (net E (length (sent w') - 1) (poll_request E code))"
      by blast
    have sl': "slept w' = slept w @ replicate (Suc k) interval"
      unfolding sl fields(3) by simp
    have sn': "sent w' = sent w @ replicate (Suc k) (poll_request E code)"
      unfolding sn fields(2) rq_def by simp
    have tr': "trace w' = trace w
        @ concat (replicate (Suc k) [Slept interval, Sent (poll_request E code)])"
      unfolding tr fields(4) rq_def by simp
    have fl': "fs w' = fs w"
      unfolding fl by (rule fields(5))
    have upper': "clock w' < deadline + of_int interval + oversleep E (length (slept w') - 1)
                        + delay (net E (length (sent w') - 1) (poll_request E code))"
    proof (cases "k = 0")
      case False
      with upper show ?thesis by simp
    next
      case k: True
      with k0 have w': "w' = w1" by simp
      have "length (slept w') - 1 = length (slept w)" and "length (sent w') - 1 = length (sent w)"
        unfolding w' fields(2) fields(3) by simp_all
      then show ?thesis
        unfolding w' using c1 True by (simp add: rq_def)
    qed
    show ?thesis
      unfolding step
      using res km sl' sn' tr' fl' late upper'
      by (intro exI [of _ w'] exI [of _ "Suc k"]) simp
  qed
qed

text \<open>With exact sleeps and polls that take no time, the loop ends exactly at the
  deadline when that is a whole number of intervals away.\<close>

lemma poll_loop_all_pending_exact:
  assumes code: "dict_index dc ''device_code'' = Inr code"
    and pend: "\<forall>n. error_reply ''authorization_pending'' (net E n (poll_request E code))"
    and dl: "\<forall>n. delay (net E n (poll_request E code)) = 0"
    and os: "\<forall>n. oversleep E n = 0"
    and iv: "0 < interval"
  shows "deadline - clock w = of_int interval * of_nat m \<Longrightarrow> m < fuel \<Longrightarrow>
     \<exists>w'. poll_loop fuel E dc deadline interval w = Some (Inl expired_error, w')
       \<and> slept w' = slept w @ replicate m interval
       \<and> sent w' = sent w @ replicate m (poll_request E code)
       \<and> clock w' = deadline"
proof (induction m arbitrary: fuel w)
  case 0
  then obtain f where f: "fuel = Suc f"
    by (cases fuel) simp_all
  from 0 have late: "\<not> clock w < deadline" and now: "clock w = deadline"
    by simp_all
  from late have "poll_loop fuel E dc deadline interval w = Some (Inl expired_error, w)"
    unfolding f by (rule poll_loop_expired)
  with now show ?case
    by (intro exI [of _ w]) simp
next
  case (Suc m)
  then obtain f where f: "fuel = Suc f" and mf: "m < f"
    by (cases fuel) simp_all
  define rq where "rq = poll_request E code"
  define w1 where "w1 = slept_and_polled E interval rq w"
  from iv have iv0: "0 \<le> interval" by simp
  note fields = slept_and_polled_fields [OF iv0, of E rq w, folded w1_def]
  have split: "of_int interval * of_nat (Suc m) = of_int interval * of_nat m + (of_int interval :: real)"
    by (simp add: algebra_simps)
  have nn: "0 \<le> (of_int interval :: real) * of_nat m"
    using iv by simp
  have pos: "0 < (of_int interval :: real)"
    using iv by simp
  from Suc.prems(1) split nn pos have early: "clock w < deadline"
    by linarith
  have pending: "error_reply ''authorization_pending'' (net E (length (sent w)) (poll_request E code))"
    using pend by simp
  have step: "poll_loop fuel E dc deadline interval w = poll_loop f E dc deadline interval w1"
    unfolding f w1_def rq_def
    using poll_loop_continue [OF early iv0 code pending, of f] by simp
  have c1: "clock w1 = clock w + of_int interval"
    unfolding fields(1) using dl os by (simp add: rq_def)
  with Suc.prems(1) split have near: "deadline - clock w1 = of_int interval * of_nat m"
    by linarith
  from Suc.IH [OF near mf] obtain w' where
    res: "poll_loop f E dc deadline interval w1 = Some (Inl expired_error, w')"
    and sl: "slept w' = slept w1 @ replicate m interval"
    and sn: "sent w' = sent w1 @ replicate m (poll_request E code)"
    and ck: "clock w' = deadline"
    by blast
  have "slept w' = slept w @ replicate (Suc m) interval"
    unfolding sl fields(3) by simp
  moreover have "sent w' = sent w @ replicate (Suc m) (poll_request E code)"
    unfolding sn fields(2) rq_def by simp
  ultimately show ?case
    unfolding step using res ck by (intro exI [of _ w']) simp
qed

section \<open>slow_down in the poll loop of device_code_login\<close>

lemma write_text_slept: "slept (snd (write_text p s w)) = slept w"
  by (simp add: write_text_def split: option.splits fnode.splits)

lemma chmod_slept: "slept (snd (chmod p m w)) = slept w"
  by (simp add: chmod_def split: option.splits fnode.splits)

lemma replace_path_slept: "slept (snd (replace_path src dst w)) = slept w"
  by (simp add: replace_path_def split: option.splits fnode.splits)

lemma write_secure_slept: "slept (snd (write_secure E d w)) = slept w"
proof -
  obtain r1 w1 where s1: "write_text (tmp_path E) (json_dumps E d) w = (r1, w1)"
    by (cases "write_text (tmp_path E) (json_dumps E d) w")
  obtain r2 w2 where s2: "chmod (tmp_path E) 384 w1 = (r2, w2)"
    by (cases "chmod (tmp_path E) 384 w1")
  from s1 have a: "slept w1 = slept w"
    using write_text_slept [of "tmp_path E" "json_dumps E d" w] by simp
  from s2 have b: "slept w2 = slept w1"
    using chmod_slept [of "tmp_path E" 384 w1] by simp
  have c: "slept (snd (replace_path (tmp_path E) (cache_path E) w2)) = slept w2"
    by (rule replace_path_slept)
  show ?thesis
  proof (cases r1)
    case (Inl e)
    with s1 a show ?thesis by (simp add: write_secure_def)
  next
    case r1: (Inr u)
    show ?thesis
    proof (cases r2)
      case (Inl e)
      with s1 s2 r1 a b show ?thesis by (simp add: write_secure_def)
    next
      case (Inr v)
      with s1 s2 r1 a b c show ?thesis by (simp add: write_secure_def)
    qed
  qed
qed

lemma poll_success_slept:
  assumes "poll_success E tr w = (res, w')"
  shows "slept w' = slept w"
proof (cases "resp_json tr")
  case (Inl e)
  with assms show ?thesis by (simp add: poll_success_def)
next
  case tj: (Inr tj)
  show ?thesis
  proof (cases "as_dict tj")
    case (Inl e)
    with assms tj show ?thesis by (simp add: poll_success_def)
  next
    case t: (Inr t)
    show ?thesis
    proof (cases "py_int (dict_get_default t ''expires_in'' (JInt 3600))")
      case (Inl e)
      with assms tj t show ?thesis by (simp add: poll_success_def)
    next
      case n: (Inr n)
      obtain r2 w2 where sv: "save_cache E (login_token t n w) w = (r2, w2)"
        by (cases "save_cache E (login_token t n w) w")
      then have "slept w2 = slept w"
        using write_secure_slept [of E "to_json (login_token t n w)" w]
        by (simp add: save_cache_def)
      with assms tj t n sv show ?thesis
        by (cases r2) (simp_all add: poll_success_def Let_def)
    qed
  qed
qed

text \<open>One iteration: the loop ends without sleeping, or ends after one sleep of the
  interval, or goes on after that sleep and a poll answered \<^verbatim>\<open>authorization_pending\<close> or
  \<^verbatim>\<open>slow_down\<close>, with the interval raised by 5 in the second case.\<close>

lemma poll_loop_iteration:
  assumes "poll_loop (Suc n) E dc deadline interval w = Some (res, w')"
  shows "slept w' = slept w
       \<or> slept w' = slept w @ [interval]
       \<or> (\<exists>code c. dict_index dc ''device_code'' = Inr code
             \<and> error_reply c (net E (length (sent w)) (poll_request E code))
             \<and> (c = ''authorization_pending'' \<or> c = ''slow_down'')
             \<and> 0 \<le> interval
             \<and> poll_loop n E dc deadline (if c = ''slow_down'' then interval + 5 else interval)
                 (slept_and_polled E interval (poll_request E code) w) = Some (res, w'))"
proof (cases "clock w < deadline")
  case False
  with assms show ?thesis by simp
next
  case early: True
  show ?thesis
  proof (cases "interval < 0")
    case True
    with assms early show ?thesis by (simp add: time_sleep_def)
  next
    case False
    then have iv0: "0 \<le> interval" by simp
    define ws where "ws = snd (time_sleep E interval w)"
    have sl: "time_sleep E interval w = (Inr (), ws)"
      unfolding ws_def using iv0 by (simp add: time_sleep_ok)
    have ws_slept: "slept ws = slept w @ [interval]" and ws_sent: "sent ws = sent w"
      unfolding ws_def using iv0 by (simp_all add: time_sleep_ok)
    show ?thesis
    proof (cases "dict_index dc ''device_code''")
      case (Inl e)
      with assms early sl have "w' = ws" by simp
      with ws_slept show ?thesis by simp
    next
      case code: (Inr code)
      define wp where "wp = slept_and_polled E interval (poll_request E code) w"
      obtain out where po: "requests_post E (poll_request E code) ws = (out, wp)"
        unfolding wp_def slept_and_polled_def ws_def [symmetric]
        by (cases "requests_post E (poll_request E code) ws") simp
      have out: "out = outcome (net E (length (sent w)) (poll_request E code))"
        using requests_post_world(1) [OF po] by (simp add: ws_sent)
      have wp_slept: "slept wp = slept w @ [interval]"
        using requests_post_world(5) [OF po] by (simp add: ws_slept)
      show ?thesis
      proof (cases out)
        case (Inl e)
        with assms early sl code po have "w' = wp" by simp
        with wp_slept show ?thesis by simp
      next
        case tr: (Inr tr)
        show ?thesis
        proof (cases "status_code tr = 200")
          case True
          with assms early sl code po tr have "poll_success E tr wp = (res, w')"
            by simp
          from poll_success_slept [OF this] wp_slept show ?thesis by simp
        next
          case st: False
          show ?thesis
          proof (cases "payload tr")
            case None
            with assms early sl code po tr st have "w' = wp"
              by (simp add: resp_json_def)
            with wp_slept show ?thesis by simp
          next
            case pl: (Some bj)
            show ?thesis
            proof (cases "as_dict bj")
              case (Inl e)
              with assms early sl code po tr st pl have "w' = wp"
                by (simp add: resp_json_def)
              with wp_slept show ?thesis by simp
            next
              case b: (Inr b)
              then have bj: "bj = JObj b"
                by (cases bj) (simp_all add: as_dict_def)
              show ?thesis
              proof (cases "dict_get b ''error'' = JStr ''authorization_pending''
                            \<or> dict_get b ''error'' = JStr ''slow_down''")
                case False
                with assms early sl code po tr st pl b have "w' = wp"
                  by (simp add: resp_json_def Let_def)
                with wp_slept show ?thesis by simp
              next
                case True
                then obtain c where c: "dict_get b ''error'' = JStr c"
                  and cc: "c = ''authorization_pending'' \<or> c = ''slow_down''"
                  by blast
                have er: "error_reply c (net E (length (sent w)) (poll_request E code))"
                  using tr st pl bj c out [symmetric] by (simp add: error_reply_def)
                from poll_loop_continue [OF early iv0 code er cc, of n] assms
                have "poll_loop n E dc deadline (if c = ''slow_down'' then interval + 5 else interval)
                        (slept_and_polled E interval (poll_request E code) w) = Some (res, w')"
                  by simp
                with code er cc iv0 show ?thesis by blast
              qed
            qed
          qed
        qed
      qed
    qed
  qed
qed

lemma error_reply_code_unique: "error_reply c rp \<Longrightarrow> error_reply c' rp \<Longrightarrow> c = c'"
  by (auto simp: error_reply_def split: sum.splits option.splits json.splits)

text \<open>
  The sleeps of one run of the loop, in order: none is shorter than the interval the loop
  was entered with, none is shorter than an earlier one, and every sleep after a poll
  that was answered \<^verbatim>\<open>slow_down\<close> is at least 5 seconds longer than the sleep before that
  poll. Sleep \<open>i\<close> of the run is followed by the poll whose request is number
  \<open>length (sent w) + i\<close>.
\<close>

lemma poll_loop_slow_down_monotone:
  assumes "poll_loop fuel E dc deadline interval w = Some (res, w')"
  shows "\<exists>L. slept w' = slept w @ L
           \<and> (\<forall>x\<in>set L. interval \<le> x)
           \<and> sorted L
           \<and> (\<forall>i j code. i < j \<and> j < length L
                 \<and> dict_index dc ''device_code'' = Inr code
                 \<and> error_reply ''slow_down'' (net E (length (sent w) + i) (poll_request E code))
                 \<longrightarrow> L ! i + 5 \<le> L ! j)"
  using assms
proof (induction fuel arbitrary: interval w)
  case 0
  then show ?case by simp
next
  case (Suc n)
  from poll_loop_iteration [OF Suc.prems]
  consider (none) "slept w' = slept w"
    | (one) "slept w' = slept w @ [interval]"
    | (more) code c where "dict_index dc ''device_code'' = Inr code"
        and "error_reply c (net E (length (sent w)) (poll_request E code))"
        and "c = ''authorization_pending'' \<or> c = ''slow_down''"
        and "0 \<le> interval"
        and "poll_loop n E dc deadline (if c = ''slow_down'' then interval + 5 else interval)
               (slept_and_polled E interval (poll_request E code) w) = Some (res, w')"
    by blast
  then show ?case
  proof cases
    case none
    then show ?thesis by (intro exI [of _ "[]"]) simp
  next
    case one
    then show ?thesis by (intro exI [of _ "[interval]"]) simp
  next
    case more
    define interval' where "interval' = (if c = ''slow_down'' then interval + 5 else interval)"
    define w1 where "w1 = slept_and_polled E interval (poll_request E code) w"
    note fields = slept_and_polled_fields [OF more(4), of E "poll_request E code" w, folded w1_def]
    from Suc.IH [OF more(5) [folded interval'_def w1_def]]
    obtain L where L: "slept w' = slept w1 @ L"
      and lower: "\<forall>x\<in>set L. interval' \<le> x"
      and srt: "sorted L"
      and slow: "\<forall>i j code. i < j \<and> j < length L
                 \<and> dict_index dc ''device_code'' = Inr code
                 \<and> error_reply ''slow_down'' (net E (length (sent w1) + i) (poll_request E code))
                 \<longrightarrow> L ! i + 5 \<le> L ! j"
      by blast
    have up: "interval \<le> interval'"
      by (simp add: interval'_def)
    have a: "slept w' = slept w @ (interval # L)"
      unfolding L fields(3) by simp
    have b: "\<forall>x\<in>set (interval # L). interval \<le> x"
      using lower up by auto
    have c': "sorted (interval # L)"
      using srt lower up by auto
    have d: "\<forall>i j code'. i < j \<and> j < length (interval # L)
                 \<and> dict_index dc ''device_code'' = Inr code'
                 \<and> error_reply ''slow_down'' (net E (length (sent w) + i) (poll_request E code'))
                 \<longrightarrow> (interval # L) ! i + 5 \<le> (interval # L) ! j"
    proof (intro allI impI)
      fix i j code'
      assume h: "i < j \<and> j < length (interval # L)
                 \<and> dict_index dc ''device_code'' = Inr code'
                 \<and> error_reply ''slow_down'' (net E (length (sent w) + i) (poll_request E code'))"
      then have ij: "i < j" and jl: "j < length (interval # L)"
        and cd: "dict_index dc ''device_code'' = Inr code'"
        and er: "error_reply ''slow_down'' (net E (length (sent w) + i) (poll_request E code'))"
        by simp_all
      from cd more(1) have same: "code' = code" by simp
      from ij obtain j' where j': "j = Suc j'" by (cases j) simp_all
      with jl have j'l: "j' < length L" by simp
      show "(interval # L) ! i + 5 \<le> (interval # L) ! j"
      proof (cases i)
        case 0
        with er same have "error_reply ''slow_down'' (net E (length (sent w)) (poll_request E code))"
          by simp
        from error_reply_code_unique [OF this more(2)] have "interval' = interval + 5"
          by (simp add: interval'_def)
        moreover from lower j'l have "interval' \<le> L ! j'"
          by simp
        ultimately show ?thesis
          using 0 j' by simp
      next
        case (Suc i')
        with ij j' have "i' < j'" by simp
        moreover from er same Suc
        have "error_reply ''slow_down'' (net E (length (sent w1) + i') (poll_request E code))"
          by (simp add: fields(2))
        ultimately have "L ! i' + 5 \<le> L ! j'"
          using slow j'l more(1) by blast
        then show ?thesis
          using Suc j' by simp
      qed
    qed
    from a b c' d show ?thesis
      by (intro exI [of _ "interval # L"] conjI)
  qed
qed

section \<open>Claims about the candidate enumeration\<close>

lemma demo_tickets:
  "candidate_tickets py_unquote py_quote ''a+b'' None
     = [(''decoded'', ''a+b''), (''decoded_enc'', ''a%2Bb''),
        (''d=decoded'', ''d=a+b''), (''t=decoded'', ''t=a+b''),
        (''d=decoded_enc'', ''d=a%2Bb''), (''t=decoded_enc'', ''t=a%2Bb'')]"
  by code_simp

lemma raw_fragment_of_None: "raw_fragment_of s None = s"
  by (simp add: raw_fragment_of_def)

lemma raw_fragment_of_same: "raw_fragment_of s (Some s) = s"
  by (simp add: raw_fragment_of_def)

lemma spec_forms_first: "\<exists>rest. spec_forms unq qt d r = (''decoded'', d) # rest"
  by (simp add: spec_forms_def Let_def)

lemma candidate_tickets_nonempty_values: "[] \<notin> snd ` set (candidate_tickets unq qt tok raw)"
proof -
  have "set (candidate_tickets unq qt tok raw)
          \<subseteq> set (filter (\<lambda>(l, t). t \<noteq> []) (spec_forms unq qt tok (raw_fragment_of tok raw)))"
    unfolding candidate_tickets_eq by (rule keep_first_subset)
  then show ?thesis by auto
qed

lemma filter_value_keep_first:
  "filter (\<lambda>(l, t). t = s) (keep_first ((l0, s) # ts)) = [(l0, s)]"
proof -
  have "set (keep_first (filter (\<lambda>(l', t'). t' \<noteq> s) ts)) \<subseteq> set (filter (\<lambda>(l', t'). t' \<noteq> s) ts)"
    by (rule keep_first_subset)
  then have "filter (\<lambda>(l, t). t = s) (keep_first (filter (\<lambda>(l', t'). t' \<noteq> s) ts)) = []"
    by (auto simp: filter_empty_conv)
  then show ?thesis by simp
qed

text \<open>
  Claim C2, as stated: for every decoded token and optional raw token the enumeration is
  the list of the eighteen forms (an absent raw form being the decoded token) with
  duplicates removed. This fails for the empty decoded token: the source's \<^verbatim>\<open>add\<close>
  returns early on an empty ticket, so the three plain and the three re-encoded forms
  are not listed, while the specification's list starts with the decoded form.
\<close>

theorem candidate_enumeration_counterexample:
  "candidate_tickets py_unquote py_quote [] None \<noteq> spec_candidates py_unquote py_quote [] None"
  by code_simp

text \<open>
  Claim C2, amended: for every decoded token and optional raw token, where an absent or
  empty raw token stands for the decoded token, \<open>candidate_tickets\<close> is a function of its
  inputs that lists the decoded form, the raw form, the raw form with percent-escapes
  removed, the percent-re-encoded versions of the three, and each of the six prefixed with
  \<^verbatim>\<open>d=\<close> and with \<^verbatim>\<open>t=\<close>, leaves out the entries whose encoded value is empty, and
  removes duplicate encoded values keeping the first occurrence; the encoded values of
  the result are pairwise distinct. The raw form is written out in the statement: the
  decoded token when the raw token is absent or empty, the raw token otherwise.
\<close>

theorem candidate_enumeration:
  "candidate_tickets unq qt tok raw =
     keep_first (filter (\<lambda>(l, t). t \<noteq> [])
       (spec_forms unq qt tok
          (case raw of None \<Rightarrow> tok | Some r \<Rightarrow> if r = [] then tok else r)))
   \<and> distinct (map snd (candidate_tickets unq qt tok raw))"
proof
  show "candidate_tickets unq qt tok raw =
     keep_first (filter (\<lambda>(l, t). t \<noteq> [])
       (spec_forms unq qt tok
          (case raw of None \<Rightarrow> tok | Some r \<Rightarrow> if r = [] then tok else r)))"
    unfolding candidate_tickets_eq raw_fragment_of_def ..
  show "distinct (map snd (candidate_tickets unq qt tok raw))"
    unfolding candidate_tickets_eq by (rule keep_first_distinct)
qed

text \<open>The witness: a raw token with an escape, and a raw token that is present and empty,
  for which the enumeration is the one of the decoded token alone.\<close>

theorem candidate_enumeration_witness:
  "keep_first (filter (\<lambda>(l, t). t \<noteq> []) (spec_forms py_unquote py_quote ''a/b'' ''a%2fb''))
   = [(''decoded'', ''a/b''), (''rawfrag'', ''a%2fb''),
      (''decoded_enc'', ''a%2Fb''), (''rawfrag_enc'', ''a%252fb''),
      (''d=decoded'', ''d=a/b''), (''t=decoded'', ''t=a/b''),
      (''d=rawfrag'', ''d=a%2fb''), (''t=rawfrag'', ''t=a%2fb''),
      (''d=decoded_enc'', ''d=a%2Fb''), (''t=decoded_enc'', ''t=a%2Fb''),
      (''d=rawfrag_enc'', ''d=a%252fb''), (''t=rawfrag_enc'', ''t=a%252fb'')]
   \<and> candidate_tickets py_unquote py_quote ''a+b'' (Some [])
       = keep_first (filter (\<lambda>(l, t). t \<noteq> []) (spec_forms py_unquote py_quote ''a+b'' ''a+b''))
   \<and> candidate_tickets py_unquote py_quote ''a+b'' (Some [])
       = [(''decoded'', ''a+b''), (''decoded_enc'', ''a%2Bb''),
          (''d=decoded'', ''d=a+b''), (''t=decoded'', ''t=a+b''),
          (''d=decoded_enc'', ''d=a%2Bb''), (''t=decoded_enc'', ''t=a%2Bb'')]"
proof (intro conjI)
  have v: "candidate_tickets py_unquote py_quote ''a/b'' (Some ''a%2fb'')
   = [(''decoded'', ''a/b''), (''rawfrag'', ''a%2fb''),
      (''decoded_enc'', ''a%2Fb''), (''rawfrag_enc'', ''a%252fb''),
      (''d=decoded'', ''d=a/b''), (''t=decoded'', ''t=a/b''),
      (''d=rawfrag'', ''d=a%2fb''), (''t=rawfrag'', ''t=a%2fb''),
      (''d=decoded_enc'', ''d=a%2Fb''), (''t=decoded_enc'', ''t=a%2Fb''),
      (''d=rawfrag_enc'', ''d=a%252fb''), (''t=rawfrag_enc'', ''t=a%252fb'')]"
    by code_simp
  have e: "candidate_tickets py_unquote py_quote ''a/b'' (Some ''a%2fb'')
      = keep_first (filter (\<lambda>(l, t). t \<noteq> [])
          (spec_forms py_unquote py_quote ''a/b'' ''a%2fb''))"
    using candidate_enumeration [of py_unquote py_quote "''a/b''" "Some ''a%2fb''",
        THEN conjunct1]
    by simp
  show "keep_first (filter (\<lambda>(l, t). t \<noteq> [])
          (spec_forms py_unquote py_quote ''a/b'' ''a%2fb''))
   = [(''decoded'', ''a/b''), (''rawfrag'', ''a%2fb''),
      (''decoded_enc'', ''a%2Fb''), (''rawfrag_enc'', ''a%252fb''),
      (''d=decoded'', ''d=a/b''), (''t=decoded'', ''t=a/b''),
      (''d=rawfrag'', ''d=a%2fb''), (''t=rawfrag'', ''t=a%2fb''),
      (''d=decoded_enc'', ''d=a%2Fb''), (''t=decoded_enc'', ''t=a%2Fb''),
      (''d=rawfrag_enc'', ''d=a%252fb''), (''t=rawfrag_enc'', ''t=a%252fb'')]"
    unfolding e [symmetric] by (rule v)
  show "candidate_tickets py_unquote py_quote ''a+b'' (Some [])
       = keep_first (filter (\<lambda>(l, t). t \<noteq> []) (spec_forms py_unquote py_quote ''a+b'' ''a+b''))"
    using candidate_enumeration [of py_unquote py_quote "''a+b''" "Some []", THEN conjunct1]
    by simp
  show "candidate_tickets py_unquote py_quote ''a+b'' (Some [])
       = [(''decoded'', ''a+b''), (''decoded_enc'', ''a%2Bb''),
          (''d=decoded'', ''d=a+b''), (''t=decoded'', ''t=a+b''),
          (''d=decoded_enc'', ''d=a%2Bb''), (''t=decoded_enc'', ''t=a%2Bb'')]"
    by code_simp
qed

text \<open>
  Claim C10: without a raw token the enumeration for the decoded token \<open>s\<close> is the one
  for the raw token \<open>s\<close>; the decoded and the raw plain candidate are one entry, labelled
  \<^verbatim>\<open>decoded\<close> (and none when \<open>s\<close> is empty, as empty tickets are skipped); no emitted
  ticket has an empty encoded value.
\<close>

theorem raw_defaults_to_decoded:
  "candidate_tickets unq qt s None = candidate_tickets unq qt s (Some s)
   \<and> filter (\<lambda>(l, t). t = s) (candidate_tickets unq qt s None)
       = (if s = [] then [] else [(''decoded'', s)])
   \<and> [] \<notin> snd ` set (candidate_tickets unq qt s raw)"
proof (intro conjI)
  show "candidate_tickets unq qt s None = candidate_tickets unq qt s (Some s)"
    by (simp add: candidate_tickets_eq raw_fragment_of_None raw_fragment_of_same)
  show "[] \<notin> snd ` set (candidate_tickets unq qt s raw)"
    by (rule candidate_tickets_nonempty_values)
  show "filter (\<lambda>(l, t). t = s) (candidate_tickets unq qt s None)
          = (if s = [] then [] else [(''decoded'', s)])"
  proof (cases "s = []")
    case True
    have "[] \<notin> snd ` set (candidate_tickets unq qt s None)"
      by (rule candidate_tickets_nonempty_values)
    with True show ?thesis by (force simp: filter_empty_conv)
  next
    case False
    obtain rest where "spec_forms unq qt s s = (''decoded'', s) # rest"
      using spec_forms_first by blast
    with False have "candidate_tickets unq qt s None
        = keep_first ((''decoded'', s) # filter (\<lambda>(l, t). t \<noteq> []) rest)"
      by (simp add: candidate_tickets_eq raw_fragment_of_None del: keep_first.simps)
    with False show ?thesis
      by (simp only: filter_value_keep_first if_False)
  qed
qed

theorem raw_defaults_to_decoded_witness:
  "candidate_tickets py_unquote py_quote ''a+b'' None
     = [(''decoded'', ''a+b''), (''decoded_enc'', ''a%2Bb''),
        (''d=decoded'', ''d=a+b''), (''t=decoded'', ''t=a+b''),
        (''d=decoded_enc'', ''d=a%2Bb''), (''t=decoded_enc'', ''t=a%2Bb'')]
   \<and> filter (\<lambda>(l, t). t = ''a+b'') (candidate_tickets py_unquote py_quote ''a+b'' None)
       = [(''decoded'', ''a+b'')]"
proof -
  have a: "candidate_tickets py_unquote py_quote ''a+b'' (Some ''a+b'')
     = [(''decoded'', ''a+b''), (''decoded_enc'', ''a%2Bb''),
        (''d=decoded'', ''d=a+b''), (''t=decoded'', ''t=a+b''),
        (''d=decoded_enc'', ''d=a%2Bb''), (''t=decoded_enc'', ''t=a%2Bb'')]"
    by code_simp
  note c10 = raw_defaults_to_decoded [of py_unquote py_quote "''a+b''" None]
  from c10 have e: "candidate_tickets py_unquote py_quote ''a+b'' None
      = candidate_tickets py_unquote py_quote ''a+b'' (Some ''a+b'')"
    by (rule conjunct1)
  from c10 have "filter (\<lambda>(l, t). t = ''a+b'') (candidate_tickets py_unquote py_quote ''a+b'' None)
      = (if ''a+b'' = [] then [] else [(''decoded'', ''a+b'')])"
    by (rule conjunct1 [OF conjunct2])
  then have f: "filter (\<lambda>(l, t). t = ''a+b'') (candidate_tickets py_unquote py_quote ''a+b'' None)
      = [(''decoded'', ''a+b'')]"
    by (simp del: filter.simps)
  from e a f show ?thesis by (simp only: simp_thms)
qed

section \<open>Claims about the platform-user exchange\<close>




text \<open>
  Claim C9: when no combination is answered with status 200, every combination is tried
  and recorded in order, with its label (candidate label, relying party, header flag) and
  its response, and the function raises a \<^verbatim>\<open>RuntimeError\<close> whose message is
  \<^verbatim>\<open>XBL user/authenticate failed. First attempts: \<close> followed by the digest, joined with
  \<^verbatim>\<open>, \<close>. The digest holds \<^verbatim>\<open>label=status\<close> for the first 12 attempts: at most 12
  entries, never none, the first one ending in the status code of the first attempt. There
  always is an attempt, as the enumeration is never empty.
\<close>

theorem exchange_exhaustion:
  assumes "cs = combinations (candidate_tickets unq qt tok raw)"
    and "\<forall>i<length cs. \<exists>r. reply_at E w cs i = Inr r \<and> status_code r \<noteq> 200"
  shows "\<exists>attempts digest w'.
           xbl_user_authenticate unq qt E tok raw w
             = (Inl (RuntimeError (''XBL user/authenticate failed. First attempts: ''
                                   @ join '', '' digest)),
                attempts, w')
         \<and> exhausted_error attempts
             = RuntimeError (''XBL user/authenticate failed. First attempts: ''
                             @ join '', '' digest)
         \<and> attempts = map (\<lambda>i. (combination_label (cs ! i), projr (reply_at E w cs i)))
                         [0..<length cs]
         \<and> digest = map (\<lambda>(lbl, r). lbl @ ''='' @ str_int (status_code r)) (take 12 attempts)
         \<and> sent w' = sent w @ map combination_request cs
         \<and> length digest \<le> 12
         \<and> digest \<noteq> []
         \<and> hd digest
             = combination_label (cs ! 0) @ ''=''
               @ str_int (status_code (projr (reply_at E w cs 0)))"
proof -
  define attempts where
    "attempts = map (\<lambda>i. (combination_label (cs ! i), projr (reply_at E w cs i))) [0..<length cs]"
  define digest where
    "digest = map (\<lambda>(lbl, r). lbl @ ''='' @ str_int (status_code r)) (take 12 attempts)"
  from combination_loop_exhausted [OF assms(2), of "[]"]
  obtain w' where run: "combination_loop E cs [] w = (None, attempts, w')"
    and snt: "sent w' = sent w @ map combination_request cs"
    unfolding attempts_def by auto
  have err: "exhausted_error attempts
      = RuntimeError (''XBL user/authenticate failed. First attempts: '' @ join '', '' digest)"
    unfolding exhausted_error_def summary_entries_def digest_def ..
  have res: "xbl_user_authenticate unq qt E tok raw w
      = (Inl (RuntimeError (''XBL user/authenticate failed. First attempts: ''
                            @ join '', '' digest)), attempts, w')"
    unfolding xbl_user_authenticate_flat assms(1) [symmetric] run err [symmetric] by simp
  have pos: "0 < length cs"
    using candidate_tickets_not_empty [of unq qt tok raw]
    by (simp add: assms(1) length_combinations)
  then have first: "attempts = (combination_label (cs ! 0), projr (reply_at E w cs 0)) # tl attempts"
    unfolding attempts_def by (simp add: upt_conv_Cons del: upt_Suc)
  have n: "length digest \<le> 12"
    by (simp add: digest_def)
  have ne: "digest \<noteq> []"
    unfolding digest_def by (subst first) simp
  have h: "hd digest
             = combination_label (cs ! 0) @ ''=''
               @ str_int (status_code (projr (reply_at E w cs 0)))"
    unfolding digest_def by (subst first) simp
  show ?thesis
    using res err attempts_def digest_def snt n ne h
    by (intro exI [of _ attempts] exI [of _ digest] exI [of _ w'] conjI)
qed

lemma str_int_401: "str_int 401 = ''401''"
  by code_simp

lemma demo_digest:
  "''XBL user/authenticate failed. First attempts: ''
     @ join '', ''
         (map (\<lambda>c. combination_label c @ ''='' @ ''401'')
            (take 12 (combinations (candidate_tickets py_unquote py_quote ''a+b'' None))))
   = ''XBL user/authenticate failed. First attempts: XBL(decoded,rp=http://auth.xboxlive.com,contract=True)=401''
        @ '', XBL(decoded_enc,rp=http://auth.xboxlive.com,contract=True)=401''
        @ '', XBL(d=decoded,rp=http://auth.xboxlive.com,contract=True)=401''
        @ '', XBL(t=decoded,rp=http://auth.xboxlive.com,contract=True)=401''
        @ '', XBL(d=decoded_enc,rp=http://auth.xboxlive.com,contract=True)=401''
        @ '', XBL(t=decoded_enc,rp=http://auth.xboxlive.com,contract=True)=401''
        @ '', XBL(decoded,rp=http://auth.xboxlive.com,contract=False)=401''
        @ '', XBL(decoded_enc,rp=http://auth.xboxlive.com,contract=False)=401''
        @ '', XBL(d=decoded,rp=http://auth.xboxlive.com,contract=False)=401''
        @ '', XBL(t=decoded,rp=http://auth.xboxlive.com,contract=False)=401''
        @ '', XBL(d=decoded_enc,rp=http://auth.xboxlive.com,contract=False)=401''
        @ '', XBL(t=decoded_enc,rp=http://auth.xboxlive.com,contract=False)=401''"
  by code_simp

text \<open>The witness, against an endpoint that always answers 401: 24 attempts, 12 entries in
  the digest, and the message in full.\<close>

theorem exchange_exhaustion_witness:
  "\<exists>attempts w'.
     xbl_user_authenticate py_unquote py_quote (demo_env net_401) ''a+b'' None demo_world
       = (Inl (RuntimeError
            (''XBL user/authenticate failed. First attempts: XBL(decoded,rp=http://auth.xboxlive.com,contract=True)=401''
        @ '', XBL(decoded_enc,rp=http://auth.xboxlive.com,contract=True)=401''
        @ '', XBL(d=decoded,rp=http://auth.xboxlive.com,contract=True)=401''
        @ '', XBL(t=decoded,rp=http://auth.xboxlive.com,contract=True)=401''
        @ '', XBL(d=decoded_enc,rp=http://auth.xboxlive.com,contract=True)=401''
        @ '', XBL(t=decoded_enc,rp=http://auth.xboxlive.com,contract=True)=401''
        @ '', XBL(decoded,rp=http://auth.xboxlive.com,contract=False)=401''
        @ '', XBL(decoded_enc,rp=http://auth.xboxlive.com,contract=False)=401''
        @ '', XBL(d=decoded,rp=http://auth.xboxlive.com,contract=False)=401''
        @ '', XBL(t=decoded,rp=http://auth.xboxlive.com,contract=False)=401''
        @ '', XBL(d=decoded_enc,rp=http://auth.xboxlive.com,contract=False)=401''
        @ '', XBL(t=decoded_enc,rp=http://auth.xboxlive.com,contract=False)=401'')),
          attempts, w')
   \<and> length attempts = 24
   \<and> length (sent w') = 24"
proof -
  define cs where "cs = combinations (candidate_tickets py_unquote py_quote ''a+b'' None)"
  define r where "r = \<lparr>status_code = 401, payload = None\<rparr>"
  have len: "length cs = 24"
    by (simp add: cs_def length_combinations demo_tickets)
  have reply: "reply_at (demo_env net_401) demo_world cs i = Inr r" for i
    by (simp add: reply_at_def demo_env_def net_401_def r_def)
  have all: "\<forall>i<length cs. \<exists>r. reply_at (demo_env net_401) demo_world cs i = Inr r
               \<and> status_code r \<noteq> 200"
    by (simp add: reply r_def)
  from exchange_exhaustion [OF cs_def all]
  obtain attempts digest w' where
    res: "xbl_user_authenticate py_unquote py_quote (demo_env net_401) ''a+b'' None demo_world
            = (Inl (RuntimeError (''XBL user/authenticate failed. First attempts: ''
                                  @ join '', '' digest)), attempts, w')"
    and att: "attempts = map (\<lambda>i. (combination_label (cs ! i),
                 projr (reply_at (demo_env net_401) demo_world cs i))) [0..<length cs]"
    and dig: "digest = map (\<lambda>(lbl, r). lbl @ ''='' @ str_int (status_code r)) (take 12 attempts)"
    and snt: "sent w' = sent demo_world @ map combination_request cs"
    by blast
  have "attempts = map (\<lambda>c. (combination_label c, r)) (map (nth cs) [0..<length cs])"
    unfolding att by (simp add: reply)
  then have att': "attempts = map (\<lambda>c. (combination_label c, r)) cs"
    by (simp only: map_nth)
  have dig': "digest = map (\<lambda>c. combination_label c @ ''='' @ ''401'') (take 12 cs)"
    unfolding dig att' by (simp add: take_map r_def str_int_401)
  have msg: "''XBL user/authenticate failed. First attempts: '' @ join '', '' digest
      = ''XBL user/authenticate failed. First attempts: XBL(decoded,rp=http://auth.xboxlive.com,contract=True)=401''
        @ '', XBL(decoded_enc,rp=http://auth.xboxlive.com,contract=True)=401''
        @ '', XBL(d=decoded,rp=http://auth.xboxlive.com,contract=True)=401''
        @ '', XBL(t=decoded,rp=http://auth.xboxlive.com,contract=True)=401''
        @ '', XBL(d=decoded_enc,rp=http://auth.xboxlive.com,contract=True)=401''
        @ '', XBL(t=decoded_enc,rp=http://auth.xboxlive.com,contract=True)=401''
        @ '', XBL(decoded,rp=http://auth.xboxlive.com,contract=False)=401''
        @ '', XBL(decoded_enc,rp=http://auth.xboxlive.com,contract=False)=401''
        @ '', XBL(d=decoded,rp=http://auth.xboxlive.com,contract=False)=401''
        @ '', XBL(t=decoded,rp=http://auth.xboxlive.com,contract=False)=401''
        @ '', XBL(d=decoded_enc,rp=http://auth.xboxlive.com,contract=False)=401''
        @ '', XBL(t=decoded_enc,rp=http://auth.xboxlive.com,contract=False)=401''"
    unfolding dig' cs_def by (rule demo_digest)
  have "length attempts = 24"
    by (simp add: att len)
  moreover have "length (sent w') = 24"
    by (simp add: snt len demo_world_def)
  ultimately show ?thesis
    using res unfolding msg by blast
qed

section \<open>Claims about the token cache\<close>

text \<open>
  Claim C7: for every token \<open>tok\<close>, when \<^verbatim>\<open>save_cache(tok)\<close> has returned, \<^verbatim>\<open>load_cache()\<close>
  yields a token equal to \<open>tok\<close> in every field, and \<^verbatim>\<open>from_json\<close> after \<^verbatim>\<open>to_json\<close> is the
  identity. The JSON library is a parameter; it is taken to read back the document it
  wrote.
\<close>

theorem cache_round_trip:
  assumes "save_cache E tok w = (Inr (), w')"
    and "json_loads E (json_dumps E (to_json tok)) = Some (to_json tok)"
  shows "load_cache E w' = Inr (Some tok) \<and> from_json (to_json tok) = Inr tok"
proof -
  from assms(1) have stored: "fs w' (cache_path E) = Some (File (json_dumps E (to_json tok)) 384)"
    unfolding save_cache_def by (rule write_secure_result(1))
  have "owner_can_read 384"
    by (simp add: owner_can_read_def)
  with stored have "load_cache E w' =
      Inr (case json_loads E (json_dumps E (to_json tok)) of
             None \<Rightarrow> None
           | Some d \<Rightarrow> (case from_json d of Inl e \<Rightarrow> None | Inr t \<Rightarrow> Some t))"
    by (rule load_cache_of_file)
  then show ?thesis
    by (simp add: assms(2) from_json_to_json)
qed

lemma demo_codec_token:
  "demo_loads (demo_dumps (to_json demo_token)) = Some (to_json demo_token)"
  by code_simp

theorem cache_round_trip_witness:
  "fst (save_cache (demo_env net_401) demo_token demo_world) = Inr ()
   \<and> load_cache (demo_env net_401) (snd (save_cache (demo_env net_401) demo_token demo_world))
       = Inr (Some demo_token)"
proof -
  have "\<exists>w'. write_secure (demo_env net_401) (to_json demo_token) demo_world = (Inr (), w')"
    by (rule write_secure_succeeds) (simp_all add: demo_world_def)
  then have saved: "fst (save_cache (demo_env net_401) demo_token demo_world) = Inr ()"
    by (auto simp: save_cache_def)
  then have "save_cache (demo_env net_401) demo_token demo_world
      = (Inr (), snd (save_cache (demo_env net_401) demo_token demo_world))"
    by (metis prod.collapse)
  moreover have "json_loads (demo_env net_401) (json_dumps (demo_env net_401) (to_json demo_token))
      = Some (to_json demo_token)"
    by (simp add: demo_env_def demo_codec_token)
  ultimately have "load_cache (demo_env net_401)
      (snd (save_cache (demo_env net_401) demo_token demo_world)) = Inr (Some demo_token)"
    using cache_round_trip by blast
  with saved show ?thesis by simp
qed

section \<open>Claim C8: a cache file that cannot be used\<close>

text \<open>
  \<^verbatim>\<open>load_cache\<close> never raises, and it returns \<^verbatim>\<open>None\<close> for a missing file, an unreadable
  file, a directory, text that is not JSON, and JSON that is not an object (lemmas
  \<open>load_cache_never_raises\<close>, \<open>load_cache_missing\<close>, \<open>load_cache_unreadable\<close>,
  \<open>load_cache_directory\<close>, \<open>load_cache_not_json\<close>, \<open>load_cache_not_object\<close>); then
  \<^verbatim>\<open>get_token\<close> goes on to the device-code login (\<open>get_token_absent\<close>).

  A JSON object with fields of the wrong type is not turned into \<^verbatim>\<open>None\<close>:
  \<^verbatim>\<open>from_json\<close> checks nothing. With \<^verbatim>\<open>"expires_at": "soon"\<close> in the file,
  \<^verbatim>\<open>load_cache\<close> returns a token, and \<^verbatim>\<open>get_token\<close> raises \<^verbatim>\<open>ValueError\<close> from
  \<^verbatim>\<open>int(tok.expires_at)\<close> in \<^verbatim>\<open>is_access_token_valid\<close>, with no request sent: neither a
  refresh nor a login is tried.
\<close>

lemma demo_codec_corrupt:
  "demo_loads (demo_dumps (JObj [(''access_token'', JStr ''AT-1''), (''expires_at'', JStr ''soon'')]))
     = Some (JObj [(''access_token'', JStr ''AT-1''), (''expires_at'', JStr ''soon'')])"
  by code_simp

lemma int_of_str_soon: "int_of_str ''soon'' = None"
  by code_simp

theorem corrupt_cache_blocks_pipeline:
  "load_cache (demo_env net_401) corrupt_cache_world
     = Inr (Some \<lparr>access_token = JStr ''AT-1'', refresh_token = JNull, id_token = JNull,
                  expires_at = JStr ''soon'', scope = JNull, token_type = JNull\<rparr>)
   \<and> get_token fuel (demo_env net_401) corrupt_cache_world
       = Some (Inl ValueError, corrupt_cache_world)"
proof -
  define tok where
    "tok = \<lparr>access_token = JStr ''AT-1'', refresh_token = JNull, id_token = JNull,
            expires_at = JStr ''soon'', scope = JNull, token_type = JNull\<rparr>"
  have stored: "fs corrupt_cache_world (cache_path (demo_env net_401))
      = Some (File (demo_dumps (JObj [(''access_token'', JStr ''AT-1''),
                                      (''expires_at'', JStr ''soon'')])) 384)"
    by (simp add: corrupt_cache_world_def demo_env_def)
  have "owner_can_read 384"
    by (simp add: owner_can_read_def)
  from load_cache_of_file [OF stored this]
  have loaded: "load_cache (demo_env net_401) corrupt_cache_world = Inr (Some tok)"
    by (simp add: demo_env_def demo_codec_corrupt from_json_def as_dict_def dict_get_def tok_def)
  have "is_access_token_valid tok corrupt_cache_world = Inl ValueError"
    by (simp add: is_access_token_valid_def tok_def int_of_str_soon)
  with loaded have "get_token fuel (demo_env net_401) corrupt_cache_world
      = Some (Inl ValueError, corrupt_cache_world)"
    by (rule get_token_check_raises)
  with loaded show ?thesis
    by (simp add: tok_def)
qed

section \<open>Claim C6: refresh\<close>

lemma refreshed_token_fields:
  "refresh_token (refreshed_token tok t n w) =
     (if truthy (dict_get t ''refresh_token'') then dict_get t ''refresh_token'' else refresh_token tok)"
  "id_token (refreshed_token tok t n w) =
     (if truthy (dict_get t ''id_token'') then dict_get t ''id_token'' else id_token tok)"
  "scope (refreshed_token tok t n w) =
     (if truthy (dict_get t ''scope'') then dict_get t ''scope'' else scope tok)"
  "token_type (refreshed_token tok t n w) =
     (if truthy (dict_get t ''token_type'') then dict_get t ''token_type'' else token_type tok)"
  "access_token (refreshed_token tok t n w) = dict_get t ''access_token''"
  "expires_at (refreshed_token tok t n w) = JInt (int_time w + n)"
  by (simp_all add: refreshed_token_def py_or_def)

lemma demo_post_200:
  "requests_post (demo_env (net_200 doc)) rq w =
     (Inr \<lparr>status_code = 200, payload = Some doc\<rparr>,
      w\<lparr>clock := clock w + 1 / 4, sent := sent w @ [rq], trace := trace w @ [Sent rq]\<rparr>)"
  by (simp add: requests_post_result demo_env_def net_200_def)

lemma demo_token_truthy: "truthy (refresh_token demo_token)"
  by (simp add: demo_token_def)

text \<open>
  Claim C6, as stated: a field the provider returns is used whenever it is present. This
  fails for a field that is present and empty: the source writes
  \<^verbatim>\<open>t.get("scope") or tok.scope\<close>, and Python's \<^verbatim>\<open>or\<close> takes the prior value when the
  returned one is empty. Here the response holds \<^verbatim>\<open>"scope": ""\<close> and the new token keeps
  the prior scope.
\<close>

theorem refresh_rotation_counterexample:
  "map_of refresh_doc_empty_scope ''scope'' = Some (JStr [])
   \<and> map_sum id scope
        (fst (refresh (demo_env (net_200 (JObj refresh_doc_empty_scope))) demo_token demo_world))
       = Inr (JStr ''openid profile offline_access'')"
proof -
  define E where "E = demo_env (net_200 (JObj refresh_doc_empty_scope))"
  define w1 where
    "w1 = demo_world\<lparr>clock := clock demo_world + 1 / 4,
                     sent := sent demo_world @ [refresh_request E demo_token],
                     trace := trace demo_world @ [Sent (refresh_request E demo_token)]\<rparr>"
  define new_tok where "new_tok = refreshed_token demo_token refresh_doc_empty_scope 3600 w1"
  have post: "requests_post E (refresh_request E demo_token) demo_world
      = (Inr \<lparr>status_code = 200, payload = Some (JObj refresh_doc_empty_scope)\<rparr>, w1)"
    unfolding E_def w1_def by (rule demo_post_200)
  have n: "py_int (dict_get_default refresh_doc_empty_scope ''expires_in'' (JInt 3600)) = Inr 3600"
    by (simp add: dict_get_default_def refresh_doc_empty_scope_def)
  have run: "refresh E demo_token demo_world =
           (case save_cache E new_tok w1 of
              (Inl e, w2) \<Rightarrow> (Inl e, w2)
            | (Inr u, w2) \<Rightarrow> (Inr new_tok, w2))"
    unfolding new_tok_def
    by (rule refresh_200 [OF demo_token_truthy post _ _ n]) simp_all
  have "\<exists>w2. write_secure E (to_json new_tok) w1 = (Inr (), w2)"
    by (rule write_secure_succeeds) (simp_all add: w1_def demo_world_def)
  then obtain w2 where "save_cache E new_tok w1 = (Inr (), w2)"
    by (auto simp: save_cache_def)
  with run have "fst (refresh E demo_token demo_world) = Inr new_tok"
    by simp
  moreover have "scope new_tok = JStr ''openid profile offline_access''"
    by (simp add: new_tok_def refreshed_token_fields dict_get_def refresh_doc_empty_scope_def
        demo_token_def)
  moreover have "map_of refresh_doc_empty_scope ''scope'' = Some (JStr [])"
    by (simp add: refresh_doc_empty_scope_def)
  ultimately show ?thesis
    by (simp add: E_def)
qed

text \<open>
  Claim C6, amended: for every prior token with a non-empty refresh token and the response
  \<open>r\<close> to the refresh request,
  \<^item> if \<open>r\<close> is not a 200, \<^verbatim>\<open>refresh\<close> raises after that one request, and the files are
    unchanged;
  \<^item> if \<^verbatim>\<open>refresh\<close> returns a token, \<open>r\<close> is a 200 whose body is an object \<open>t\<close>, one request
    was sent, the cache file holds the new token, and each of \<^verbatim>\<open>refresh_token\<close>,
    \<^verbatim>\<open>id_token\<close>, \<^verbatim>\<open>scope\<close> and \<^verbatim>\<open>token_type\<close> is the value of \<open>t\<close> when that is non-empty
    (true in Python's sense) and the prior token's value when the field is omitted,
    \<^verbatim>\<open>null\<close> or empty; in particular an omitted \<^verbatim>\<open>refresh_token\<close> leaves the prior one;
  \<^item> it does return a token when \<open>r\<close> is a 200 with an object body whose \<^verbatim>\<open>expires_in\<close>
    converts to an integer and the cache can be written.
\<close>

theorem refresh_rotation:
  assumes "truthy (refresh_token tok)"
    and "requests_post E (refresh_request E tok) w = (Inr r, w1)"
  shows
    "(status_code r \<noteq> 200 \<longrightarrow>
        refresh E tok w = (Inl (RuntimeError ''Refresh failed: ''), w1)
        \<and> sent w1 = sent w @ [refresh_request E tok] \<and> fs w1 = fs w)
   \<and> (\<forall>new_tok w'. refresh E tok w = (Inr new_tok, w') \<longrightarrow>
         status_code r = 200
         \<and> sent w' = sent w @ [refresh_request E tok]
         \<and> fs w' (cache_path E) = Some (File (json_dumps E (to_json new_tok)) 384)
         \<and> (\<exists>t. payload r = Some (JObj t)
              \<and> refresh_token new_tok =
                  (if truthy (dict_get t ''refresh_token'') then dict_get t ''refresh_token''
                   else refresh_token tok)
              \<and> id_token new_tok =
                  (if truthy (dict_get t ''id_token'') then dict_get t ''id_token''
                   else id_token tok)
              \<and> scope new_tok =
                  (if truthy (dict_get t ''scope'') then dict_get t ''scope'' else scope tok)
              \<and> token_type new_tok =
                  (if truthy (dict_get t ''token_type'') then dict_get t ''token_type''
                   else token_type tok)
              \<and> (map_of t ''refresh_token'' = None \<longrightarrow> refresh_token new_tok = refresh_token tok)))
   \<and> (status_code r = 200
        \<and> (\<exists>t n. payload r = Some (JObj t)
               \<and> py_int (dict_get_default t ''expires_in'' (JInt 3600)) = Inr n)
        \<and> (fs w (tmp_path E) = None
             \<or> (\<exists>old m. fs w (tmp_path E) = Some (File old m) \<and> owner_can_write m))
        \<and> fs w (cache_path E) \<noteq> Some Dir
        \<longrightarrow> (\<exists>new_tok w'. refresh E tok w = (Inr new_tok, w')))"
proof (intro conjI allI impI)
  assume "status_code r \<noteq> 200"
  with assms show "refresh E tok w = (Inl (RuntimeError ''Refresh failed: ''), w1)"
    by (rule refresh_not_200)
next
  show "sent w1 = sent w @ [refresh_request E tok]"
    using assms(2) by (rule requests_post_world(2))
next
  show "fs w1 = fs w"
    using assms(2) by (rule requests_post_world(4))
next
  fix new_tok w'
  assume ret: "refresh E tok w = (Inr new_tok, w')"
  from refresh_returns [OF ret assms(2)] obtain t n where
    ok: "status_code r = 200" and t: "payload r = Some (JObj t)"
    and new: "new_tok = refreshed_token tok t n w1"
    and saved: "save_cache E new_tok w1 = (Inr (), w')"
    by blast
  from saved have ws: "write_secure E (to_json new_tok) w1 = (Inr (), w')"
    by (simp add: save_cache_def)
  show "status_code r = 200" by (rule ok)
  show "sent w' = sent w @ [refresh_request E tok]"
    using write_secure_result(2) [OF ws] requests_post_world(2) [OF assms(2)] by simp
  show "fs w' (cache_path E) = Some (File (json_dumps E (to_json new_tok)) 384)"
    using ws by (rule write_secure_result(1))
  have om: "map_of t ''refresh_token'' = None \<longrightarrow> refresh_token new_tok = refresh_token tok"
  proof
    assume "map_of t ''refresh_token'' = None"
    then have "dict_get t ''refresh_token'' = JNull"
      by (simp add: dict_get_def)
    then show "refresh_token new_tok = refresh_token tok"
      unfolding new refreshed_token_fields(1) by simp
  qed
  show "\<exists>t. payload r = Some (JObj t)
      \<and> refresh_token new_tok =
          (if truthy (dict_get t ''refresh_token'') then dict_get t ''refresh_token''
           else refresh_token tok)
      \<and> id_token new_tok =
          (if truthy (dict_get t ''id_token'') then dict_get t ''id_token'' else id_token tok)
      \<and> scope new_tok =
          (if truthy (dict_get t ''scope'') then dict_get t ''scope'' else scope tok)
      \<and> token_type new_tok =
          (if truthy (dict_get t ''token_type'') then dict_get t ''token_type''
           else token_type tok)
      \<and> (map_of t ''refresh_token'' = None \<longrightarrow> refresh_token new_tok = refresh_token tok)"
  proof (intro exI [of _ t] conjI)
    show "payload r = Some (JObj t)" by (rule t)
    show "refresh_token new_tok =
          (if truthy (dict_get t ''refresh_token'') then dict_get t ''refresh_token''
           else refresh_token tok)"
      unfolding new by (rule refreshed_token_fields(1))
    show "id_token new_tok =
          (if truthy (dict_get t ''id_token'') then dict_get t ''id_token'' else id_token tok)"
      unfolding new by (rule refreshed_token_fields(2))
    show "scope new_tok =
          (if truthy (dict_get t ''scope'') then dict_get t ''scope'' else scope tok)"
      unfolding new by (rule refreshed_token_fields(3))
    show "token_type new_tok =
          (if truthy (dict_get t ''token_type'') then dict_get t ''token_type''
           else token_type tok)"
      unfolding new by (rule refreshed_token_fields(4))
    show "map_of t ''refresh_token'' = None \<longrightarrow> refresh_token new_tok = refresh_token tok"
      by (rule om)
  qed
next
  assume h: "status_code r = 200
        \<and> (\<exists>t n. payload r = Some (JObj t)
               \<and> py_int (dict_get_default t ''expires_in'' (JInt 3600)) = Inr n)
        \<and> (fs w (tmp_path E) = None
             \<or> (\<exists>old m. fs w (tmp_path E) = Some (File old m) \<and> owner_can_write m))
        \<and> fs w (cache_path E) \<noteq> Some Dir"
  then obtain t n where ok: "status_code r = 200" and t: "payload r = Some (JObj t)"
    and n: "py_int (dict_get_default t ''expires_in'' (JInt 3600)) = Inr n"
    by blast
  have same: "fs w1 = fs w"
    using assms(2) by (rule requests_post_world(4))
  have "\<exists>w'. write_secure E (to_json (refreshed_token tok t n w1)) w1 = (Inr (), w')"
    by (rule write_secure_succeeds) (use h same in simp_all)
  then obtain w' where "save_cache E (refreshed_token tok t n w1) w1 = (Inr (), w')"
    by (auto simp: save_cache_def)
  with refresh_200 [OF assms ok t n]
  have "refresh E tok w = (Inr (refreshed_token tok t n w1), w')"
    by simp
  then show "\<exists>new_tok w'. refresh E tok w = (Inr new_tok, w')"
    by blast
qed

theorem refresh_rotation_witness:
  "\<exists>new_tok w'.
     refresh (demo_env (net_200 (JObj refresh_doc_plain))) demo_token demo_world = (Inr new_tok, w')
   \<and> refresh_token new_tok = JStr ''RT-1''
   \<and> fs w' (cache_path (demo_env (net_200 (JObj refresh_doc_plain))))
       = Some (File (demo_dumps (to_json new_tok)) 384)
   \<and> length (sent w') = 1"
proof -
  define E where "E = demo_env (net_200 (JObj refresh_doc_plain))"
  define r where "r = \<lparr>status_code = 200, payload = Some (JObj refresh_doc_plain)\<rparr>"
  define w1 where
    "w1 = demo_world\<lparr>clock := clock demo_world + 1 / 4,
                     sent := sent demo_world @ [refresh_request E demo_token],
                     trace := trace demo_world @ [Sent (refresh_request E demo_token)]\<rparr>"
  have post: "requests_post E (refresh_request E demo_token) demo_world = (Inr r, w1)"
    unfolding E_def w1_def r_def by (rule demo_post_200)
  note c6 = refresh_rotation [OF demo_token_truthy post]
  have "status_code r = 200
        \<and> (\<exists>t n. payload r = Some (JObj t)
               \<and> py_int (dict_get_default t ''expires_in'' (JInt 3600)) = Inr n)
        \<and> (fs demo_world (tmp_path E) = None
             \<or> (\<exists>old m. fs demo_world (tmp_path E) = Some (File old m) \<and> owner_can_write m))
        \<and> fs demo_world (cache_path E) \<noteq> Some Dir"
    by (simp add: r_def demo_world_def dict_get_default_def refresh_doc_plain_def)
  with c6 [THEN conjunct2, THEN conjunct2]
  obtain new_tok w' where ret: "refresh E demo_token demo_world = (Inr new_tok, w')"
    by blast
  note returned = c6 [THEN conjunct2, THEN conjunct1, rule_format, OF ret]
  from returned have "\<exists>t. payload r = Some (JObj t)
       \<and> refresh_token new_tok =
          (if truthy (dict_get t ''refresh_token'') then dict_get t ''refresh_token''
           else refresh_token demo_token)
       \<and> id_token new_tok =
          (if truthy (dict_get t ''id_token'') then dict_get t ''id_token''
           else id_token demo_token)
       \<and> scope new_tok =
          (if truthy (dict_get t ''scope'') then dict_get t ''scope'' else scope demo_token)
       \<and> token_type new_tok =
          (if truthy (dict_get t ''token_type'') then dict_get t ''token_type''
           else token_type demo_token)
       \<and> (map_of t ''refresh_token'' = None \<longrightarrow> refresh_token new_tok = refresh_token demo_token)"
    by (rule conjunct2 [OF conjunct2 [OF conjunct2]])
  then obtain t where t: "payload r = Some (JObj t)"
    and om: "map_of t ''refresh_token'' = None \<longrightarrow> refresh_token new_tok = refresh_token demo_token"
    by (elim exE conjE)
  from t have "t = refresh_doc_plain"
    by (simp add: r_def)
  with om have "refresh_token new_tok = JStr ''RT-1''"
    by (simp add: refresh_doc_plain_def demo_token_def)
  moreover from returned have "sent w' = sent demo_world @ [refresh_request E demo_token]"
    by (rule conjunct1 [OF conjunct2])
  then have "length (sent w') = 1"
    by (simp add: demo_world_def)
  moreover from returned
  have "fs w' (cache_path E) = Some (File (json_dumps E (to_json new_tok)) 384)"
    by (rule conjunct1 [OF conjunct2 [OF conjunct2]])
  then have "fs w' (cache_path E) = Some (File (demo_dumps (to_json new_tok)) 384)"
    by (simp add: E_def demo_env_def)
  ultimately show ?thesis
    using ret unfolding E_def by blast
qed

section \<open>Claim C5: the credential policy\<close>








section \<open>Claim C4: the device code expires\<close>

lemma device_code_login_polls:
  assumes "requests_post E (device_code_request E) w = (Inr r0, w0)"
    and "status_code r0 = 200" and "payload r0 = Some (JObj dc)"
    and "instruction_check dc = Inr ()"
    and "py_int (dict_get_default dc ''interval'' (JInt 5)) = Inr interval"
    and "py_int (dict_get_default dc ''expires_in'' (JInt 900)) = Inr expires_in"
  shows "device_code_login fuel E w = poll_loop fuel E dc (clock w0 + of_int expires_in) interval w0"
  using assms by (simp add: device_code_login_def resp_json_def as_dict_def)

text \<open>Any other error code ends the loop with a \<^verbatim>\<open>RuntimeError\<close>, the denial.\<close>

lemma poll_loop_denied:
  assumes "clock w < deadline" and "0 \<le> interval"
    and "dict_index dc ''device_code'' = Inr code"
    and "error_reply c (net E (length (sent w)) (poll_request E code))"
    and "c \<noteq> ''authorization_pending''" and "c \<noteq> ''slow_down''"
  shows "poll_loop (Suc n) E dc deadline interval w =
           Some (Inl (RuntimeError ''Device code token failed: ''),
                 slept_and_polled E interval (poll_request E code) w)"
proof -
  define ws where "ws = snd (time_sleep E interval w)"
  have sl: "time_sleep E interval w = (Inr (), ws)"
    unfolding ws_def using assms(2) by (simp add: time_sleep_ok)
  have sn: "sent ws = sent w"
    unfolding ws_def using assms(2) by (simp add: time_sleep_ok)
  from assms(4) obtain r b where
    r: "outcome (net E (length (sent w)) (poll_request E code)) = Inr r"
    and st: "status_code r \<noteq> 200"
    and pl: "payload r = Some (JObj b)"
    and er: "dict_get b ''error'' = JStr c"
    by (rule error_replyD)
  define wp where "wp = slept_and_polled E interval (poll_request E code) w"
  have po: "requests_post E (poll_request E code) ws = (Inr r, wp)"
    unfolding wp_def slept_and_polled_def ws_def [symmetric]
    by (simp add: requests_post_result sn r)
  have js: "resp_json r = Inr (JObj b)"
    by (simp add: resp_json_def pl)
  have ad: "as_dict (JObj b) = Inr b"
    by (simp add: as_dict_def)
  show ?thesis
    unfolding wp_def [symmetric]
    using assms(1) assms(3) assms(5) assms(6) st er
    by (simp add: sl po js ad Let_def)
qed

subsection \<open>The demonstration flow\<close>

lemma demo_flow_device_post:
  "requests_post (demo_env (net_flow d a)) (device_code_request (demo_env (net_flow d a))) w =
     (Inr \<lparr>status_code = 200, payload = Some (JObj demo_device_doc)\<rparr>,
      w\<lparr>clock := clock w + d,
        sent := sent w @ [device_code_request (demo_env (net_flow d a))],
        trace := trace w @ [Sent (device_code_request (demo_env (net_flow d a)))]\<rparr>)"
  by (simp add: requests_post_result demo_env_def net_flow_def device_code_request_def)

lemma demo_flow_poll_reply:
  "net (demo_env (net_flow d a)) n (poll_request E code) =
     \<lparr>delay = d, outcome = Inr \<lparr>status_code = fst (a n), payload = Some (snd (a n))\<rparr>\<rparr>"
  by (simp add: demo_env_def net_flow_def poll_request_def TOKEN_URL_def DEVICE_CODE_URL_def)

lemma demo_flow_error_reply:
  "a n = (st, JObj [(''error'', JStr c)]) \<Longrightarrow> st \<noteq> 200 \<Longrightarrow>
     error_reply c (net (demo_env (net_flow d a)) n (poll_request E code))"
  by (simp add: demo_flow_poll_reply error_reply_def dict_get_def)

lemma demo_device_doc_fields:
  "instruction_check demo_device_doc = Inr ()"
  "py_int (dict_get_default demo_device_doc ''interval'' (JInt 5)) = Inr 5"
  "py_int (dict_get_default demo_device_doc ''expires_in'' (JInt 900)) = Inr 20"
  "dict_index demo_device_doc ''device_code'' = Inr (JStr ''DEVICE-CODE'')"
  by (simp_all add: instruction_check_def dict_get_def dict_get_default_def dict_index_def
      demo_device_doc_def)

lemma demo_flow_login:
  "device_code_login fuel (demo_env (net_flow d a)) w =
     poll_loop fuel (demo_env (net_flow d a)) demo_device_doc (clock w + d + 20) 5
       (w\<lparr>clock := clock w + d,
          sent := sent w @ [device_code_request (demo_env (net_flow d a))],
          trace := trace w @ [Sent (device_code_request (demo_env (net_flow d a)))]\<rparr>)"
proof -
  have "device_code_login fuel (demo_env (net_flow d a)) w =
     poll_loop fuel (demo_env (net_flow d a)) demo_device_doc
       (clock (w\<lparr>clock := clock w + d,
          sent := sent w @ [device_code_request (demo_env (net_flow d a))],
          trace := trace w @ [Sent (device_code_request (demo_env (net_flow d a)))]\<rparr>)
        + of_int 20) 5
       (w\<lparr>clock := clock w + d,
          sent := sent w @ [device_code_request (demo_env (net_flow d a))],
          trace := trace w @ [Sent (device_code_request (demo_env (net_flow d a)))]\<rparr>)"
    by (rule device_code_login_polls [where dc = demo_device_doc and interval = 5
          and expires_in = 20, OF demo_flow_device_post])
       (simp_all add: demo_device_doc_fields)
  then show ?thesis by simp
qed

lemma demo_flow_step:
  fixes d :: real and a :: "nat \<Rightarrow> int \<times> json"
  defines "rq \<equiv> poll_request (demo_env (net_flow d a)) (JStr ''DEVICE-CODE'')"
  assumes "clock w < deadline" and "0 \<le> interval"
    and "a (length (sent w)) = (st, JObj [(''error'', JStr c)])" and "st \<noteq> 200"
    and "c = ''authorization_pending'' \<or> c = ''slow_down''"
  shows "poll_loop (Suc n) (demo_env (net_flow d a)) demo_device_doc deadline interval w =
           poll_loop n (demo_env (net_flow d a)) demo_device_doc deadline
             (if c = ''slow_down'' then interval + 5 else interval)
             (slept_and_polled (demo_env (net_flow d a)) interval rq w)"
    and "clock (slept_and_polled (demo_env (net_flow d a)) interval rq w)
           = clock w + of_int interval + d"
    and "sent (slept_and_polled (demo_env (net_flow d a)) interval rq w) = sent w @ [rq]"
    and "slept (slept_and_polled (demo_env (net_flow d a)) interval rq w) = slept w @ [interval]"
    and "trace (slept_and_polled (demo_env (net_flow d a)) interval rq w)
           = trace w @ [Slept interval, Sent rq]"
proof -
  have er: "error_reply c (net (demo_env (net_flow d a)) (length (sent w))
              (poll_request (demo_env (net_flow d a)) (JStr ''DEVICE-CODE'')))"
    using assms(4) assms(5) by (rule demo_flow_error_reply)
  show "poll_loop (Suc n) (demo_env (net_flow d a)) demo_device_doc deadline interval w =
           poll_loop n (demo_env (net_flow d a)) demo_device_doc deadline
             (if c = ''slow_down'' then interval + 5 else interval)
             (slept_and_polled (demo_env (net_flow d a)) interval rq w)"
    unfolding rq_def
    by (rule poll_loop_continue [OF assms(2) assms(3) demo_device_doc_fields(4) er assms(6)])
  note fields = slept_and_polled_fields [OF assms(3), of "demo_env (net_flow d a)" rq w]
  show "clock (slept_and_polled (demo_env (net_flow d a)) interval rq w)
           = clock w + of_int interval + d"
    unfolding fields(1) by (simp add: rq_def demo_flow_poll_reply) (simp add: demo_env_def)
  show "sent (slept_and_polled (demo_env (net_flow d a)) interval rq w) = sent w @ [rq]"
    by (rule fields(2))
  show "slept (slept_and_polled (demo_env (net_flow d a)) interval rq w) = slept w @ [interval]"
    by (rule fields(3))
  show "trace (slept_and_polled (demo_env (net_flow d a)) interval rq w)
           = trace w @ [Slept interval, Sent rq]"
    by (rule fields(4))
qed

lemma demo_pending_step:
  fixes d :: real
  defines "E \<equiv> demo_env (net_flow d (\<lambda>n. pending_answer))"
  defines "rq \<equiv> poll_request E (JStr ''DEVICE-CODE'')"
  assumes "clock w < deadline"
  shows "poll_loop (Suc n) E demo_device_doc deadline 5 w =
           poll_loop n E demo_device_doc deadline 5 (slept_and_polled E 5 rq w)"
    and "clock (slept_and_polled E 5 rq w) = clock w + 5 + d"
    and "sent (slept_and_polled E 5 rq w) = sent w @ [rq]"
    and "slept (slept_and_polled E 5 rq w) = slept w @ [5]"
    and "trace (slept_and_polled E 5 rq w) = trace w @ [Slept 5, Sent rq]"
proof -
  note step = demo_flow_step [where d = d and a = "\<lambda>n. pending_answer" and w = w
      and deadline = deadline and interval = 5 and st = 400
      and c = "''authorization_pending''", folded E_def, folded rq_def]
  have p: "(\<lambda>n. pending_answer) (length (sent w))
      = (400, JObj [(''error'', JStr ''authorization_pending'')])"
    by (simp add: pending_answer_def)
  have "poll_loop (Suc n) E demo_device_doc deadline 5 w =
           poll_loop n E demo_device_doc deadline
             (if ''authorization_pending'' = ''slow_down'' then 5 + 5 else 5)
             (slept_and_polled E 5 rq w)"
    by (rule step(1) [OF assms(3) _ p]) simp_all
  then show "poll_loop (Suc n) E demo_device_doc deadline 5 w =
           poll_loop n E demo_device_doc deadline 5 (slept_and_polled E 5 rq w)"
    by simp
  have "clock (slept_and_polled E 5 rq w) = clock w + of_int 5 + d"
    by (rule step(2) [OF assms(3) _ p]) simp_all
  then show "clock (slept_and_polled E 5 rq w) = clock w + 5 + d"
    by simp
  show "sent (slept_and_polled E 5 rq w) = sent w @ [rq]"
    by (rule step(3) [OF assms(3) _ p]) simp_all
  show "slept (slept_and_polled E 5 rq w) = slept w @ [5]"
    by (rule step(4) [OF assms(3) _ p]) simp_all
  show "trace (slept_and_polled E 5 rq w) = trace w @ [Slept 5, Sent rq]"
    by (rule step(5) [OF assms(3) _ p]) simp_all
qed

text \<open>
  Claim C4, as stated: with interval 5 and lifetime 20 the login ends within 20 to 25
  seconds. The deadline is only compared with the clock at the head of the loop, so the
  time of the last sleep and of the last poll comes on top. Here every call takes a second
  and a half: the fourth iteration starts 19.5 seconds after the deadline was set, and the
  timeout is raised 26 seconds after it.
\<close>

theorem device_code_expiry_counterexample:
  "fst (the (device_code_login 5 (demo_env (net_flow (3 / 2) (\<lambda>n. pending_answer))) demo_world))
     = Inl (TimeoutError ''Device code expired before you finished signing in.'')
   \<and> slept (snd (the (device_code_login 5 (demo_env (net_flow (3 / 2) (\<lambda>n. pending_answer)))
                        demo_world)))
       = [5, 5, 5, 5]
   \<and> clock (snd (the (device_code_login 5 (demo_env (net_flow (3 / 2) (\<lambda>n. pending_answer)))
                        demo_world)))
       = (clock demo_world + 3 / 2) + 26"
proof -
  define E where "E = demo_env (net_flow (3 / 2) (\<lambda>n. pending_answer))"
  define rq where "rq = poll_request E (JStr ''DEVICE-CODE'')"
  define D where "D = clock demo_world + 3 / 2 + 20"
  define W0 where
    "W0 = demo_world\<lparr>clock := clock demo_world + 3 / 2,
            sent := sent demo_world @ [device_code_request E],
            trace := trace demo_world @ [Sent (device_code_request E)]\<rparr>"
  define W1 where "W1 = slept_and_polled E 5 rq W0"
  define W2 where "W2 = slept_and_polled E 5 rq W1"
  define W3 where "W3 = slept_and_polled E 5 rq W2"
  define W4 where "W4 = slept_and_polled E 5 rq W3"
  have login: "device_code_login (Suc (Suc (Suc (Suc (Suc 0))))) E demo_world
      = poll_loop (Suc (Suc (Suc (Suc (Suc 0))))) E demo_device_doc D 5 W0"
    unfolding E_def W0_def D_def by (rule demo_flow_login)
  note step = demo_pending_step [where d = "3 / 2" and deadline = D, folded E_def, folded rq_def]
  have c0: "clock W0 = clock demo_world + 3 / 2" and s0: "slept W0 = []"
    by (simp_all add: W0_def demo_world_def)
  have e0: "clock W0 < D"
    by (simp add: c0 D_def)
  have c1: "clock W1 = clock demo_world + 3 / 2 + 13 / 2"
    unfolding W1_def step(2) [OF e0] c0 by simp
  have e1: "clock W1 < D"
    by (simp add: c1 D_def)
  have c2: "clock W2 = clock demo_world + 3 / 2 + 13"
    unfolding W2_def step(2) [OF e1] c1 by simp
  have e2: "clock W2 < D"
    by (simp add: c2 D_def)
  have c3: "clock W3 = clock demo_world + 3 / 2 + 39 / 2"
    unfolding W3_def step(2) [OF e2] c2 by simp
  have e3: "clock W3 < D"
    by (simp add: c3 D_def)
  have c4: "clock W4 = clock demo_world + 3 / 2 + 26"
    unfolding W4_def step(2) [OF e3] c3 by simp
  have e4: "\<not> clock W4 < D"
    by (simp add: c4 D_def)
  have s1: "slept W1 = [5]"
    unfolding W1_def step(4) [OF e0] s0 by simp
  have s2: "slept W2 = [5, 5]"
    unfolding W2_def step(4) [OF e1] s1 by simp
  have s3: "slept W3 = [5, 5, 5]"
    unfolding W3_def step(4) [OF e2] s2 by simp
  have s4: "slept W4 = [5, 5, 5, 5]"
    unfolding W4_def step(4) [OF e3] s3 by simp
  have "poll_loop (Suc (Suc (Suc (Suc (Suc 0))))) E demo_device_doc D 5 W0
      = poll_loop (Suc 0) E demo_device_doc D 5 W4"
    unfolding step(1) [OF e0] W1_def [symmetric] step(1) [OF e1] W2_def [symmetric]
      step(1) [OF e2] W3_def [symmetric] step(1) [OF e3] W4_def [symmetric] ..
  also have "\<dots> = Some (Inl expired_error, W4)"
    using e4 by (rule poll_loop_expired)
  finally have run: "device_code_login (Suc (Suc (Suc (Suc (Suc 0))))) E demo_world
      = Some (Inl expired_error, W4)"
    unfolding login .
  have five: "(5::nat) = Suc (Suc (Suc (Suc (Suc 0))))"
    by simp
  have "device_code_login 5 E demo_world = Some (Inl expired_error, W4)"
    unfolding five by (rule run)
  with s4 c4 show ?thesis
    unfolding E_def [symmetric] by (simp add: expired_error_def)
qed

text \<open>
  Claim C4, amended: for every device-code login with interval 5 and lifetime 20 in which
  the token endpoint always answers \<^verbatim>\<open>authorization_pending\<close> (sleeps last at least as
  long as asked, calls take no negative time), the loop sleeps 5 seconds before each poll,
  performs at least one and at most 4 polls, and ends by raising a \<^verbatim>\<open>TimeoutError\<close>, not
  the \<^verbatim>\<open>RuntimeError\<close> that any other error code gives (\<open>poll_loop_denied\<close>). It is raised no
  earlier than 20 seconds after the deadline was set, and less than 25 seconds plus the
  extra time of the last sleep and the duration of the last poll after it; with exact
  sleeps and polls that take no time, after exactly 4 polls and exactly 20 seconds.
\<close>

theorem device_code_expiry:
  assumes dev: "requests_post E (device_code_request E) w = (Inr r0, w0)"
    and ok: "status_code r0 = 200"
    and doc: "payload r0 = Some (JObj dc)"
    and ins: "instruction_check dc = Inr ()"
    and iv: "py_int (dict_get_default dc ''interval'' (JInt 5)) = Inr 5"
    and ex: "py_int (dict_get_default dc ''expires_in'' (JInt 900)) = Inr 20"
    and code: "dict_index dc ''device_code'' = Inr code"
    and pend: "\<forall>n. error_reply ''authorization_pending'' (net E n (poll_request E code))"
    and dl: "\<forall>n rq. 0 \<le> delay (net E n rq)"
    and os: "\<forall>n. 0 \<le> oversleep E n"
    and fuel: "5 \<le> fuel"
  shows "\<exists>w' k.
           device_code_login fuel E w
             = Some (Inl (TimeoutError ''Device code expired before you finished signing in.''), w')
         \<and> 1 \<le> k \<and> k \<le> 4
         \<and> trace w' = trace w @ Sent (device_code_request E)
                          # concat (replicate k [Slept 5, Sent (poll_request E code)])
         \<and> clock w0 + 20 \<le> clock w'
         \<and> clock w' < clock w0 + 25 + oversleep E (length (slept w') - 1)
                         + delay (net E (length (sent w') - 1) (poll_request E code))
         \<and> ((\<forall>n. oversleep E n = 0) \<and> (\<forall>n. delay (net E n (poll_request E code)) = 0)
              \<longrightarrow> k = 4 \<and> clock w' = clock w0 + 20)"
proof -
  have login: "device_code_login fuel E w = poll_loop fuel E dc (clock w0 + of_int 20) 5 w0"
    using dev ok doc ins iv ex by (rule device_code_login_polls)
  have near: "(clock w0 + of_int 20) - clock w0 \<le> of_int 5 * of_nat 4"
    by simp
  have enough: "4 < fuel"
    using fuel by simp
  have five: "(0::int) < 5"
    by simp
  from poll_loop_all_pending [OF code pend dl os five near enough]
  obtain w' k where
    res: "poll_loop fuel E dc (clock w0 + of_int 20) 5 w0 = Some (Inl expired_error, w')"
    and k4: "k \<le> 4"
    and k1: "clock w0 < clock w0 + of_int 20 \<longrightarrow> 1 \<le> k"
    and sl: "slept w' = slept w0 @ replicate k 5"
    and tr: "trace w' = trace w0 @ concat (replicate k [Slept 5, Sent (poll_request E code)])"
    and late: "clock w0 + of_int 20 \<le> clock w'"
    and upper: "1 \<le> k \<longrightarrow>
            clock w' < clock w0 + of_int 20 + of_int 5 + oversleep E (length (slept w') - 1)
                        + delay (net E (length (sent w') - 1) (poll_request E code))"
    by blast
  from k1 have k1': "1 \<le> k"
    by simp
  have tr': "trace w' = trace w @ Sent (device_code_request E)
                          # concat (replicate k [Slept 5, Sent (poll_request E code)])"
    unfolding tr requests_post_world(6) [OF dev] by simp
  from upper k1' have upper': "clock w' < clock w0 + 25 + oversleep E (length (slept w') - 1)
                         + delay (net E (length (sent w') - 1) (poll_request E code))"
    by simp
  have exact: "(\<forall>n. oversleep E n = 0) \<and> (\<forall>n. delay (net E n (poll_request E code)) = 0)
              \<longrightarrow> k = 4 \<and> clock w' = clock w0 + 20"
  proof
    assume z: "(\<forall>n. oversleep E n = 0) \<and> (\<forall>n. delay (net E n (poll_request E code)) = 0)"
    then have os0: "\<forall>n. oversleep E n = 0"
      and dl0: "\<forall>n. delay (net E n (poll_request E code)) = 0"
      by simp_all
    have eq: "(clock w0 + of_int 20) - clock w0 = of_int 5 * of_nat 4"
      by simp
    from poll_loop_all_pending_exact [OF code pend dl0 os0 five eq enough]
    obtain w'' where
      res': "poll_loop fuel E dc (clock w0 + of_int 20) 5 w0 = Some (Inl expired_error, w'')"
      and sl': "slept w'' = slept w0 @ replicate 4 5"
      and ck: "clock w'' = clock w0 + of_int 20"
      by blast
    from res res' have same: "w'' = w'"
      by simp
    from sl sl' same have "replicate k (5::int) = replicate 4 5"
      by simp
    then have "length (replicate k (5::int)) = length (replicate 4 (5::int))"
      by (rule arg_cong)
    then have "k = 4"
      by simp
    with ck same show "k = 4 \<and> clock w' = clock w0 + 20"
      by simp
  qed
  from res have res': "poll_loop fuel E dc (clock w0 + of_int 20) 5 w0
      = Some (Inl (TimeoutError ''Device code expired before you finished signing in.''), w')"
    by (simp add: expired_error_def)
  from late have late': "clock w0 + 20 \<le> clock w'"
    by simp
  show ?thesis
    unfolding login
    using res' k1' k4 tr' late' upper' exact
    by (intro exI [of _ w'] exI [of _ k] conjI)
qed

theorem device_code_expiry_witness:
  "\<exists>w'. device_code_login 5 (demo_env (net_flow 0 (\<lambda>n. pending_answer))) demo_world
           = Some (Inl (TimeoutError ''Device code expired before you finished signing in.''), w')
        \<and> trace w' =
            Sent (device_code_request (demo_env (net_flow 0 (\<lambda>n. pending_answer))))
            # concat (replicate 4
                [Slept 5,
                 Sent (poll_request (demo_env (net_flow 0 (\<lambda>n. pending_answer)))
                         (JStr ''DEVICE-CODE''))])
        \<and> clock w' = clock demo_world + 20"
proof -
  define E where "E = demo_env (net_flow 0 (\<lambda>n. pending_answer))"
  define w0 where
    "w0 = demo_world\<lparr>clock := clock demo_world + 0,
            sent := sent demo_world @ [device_code_request E],
            trace := trace demo_world @ [Sent (device_code_request E)]\<rparr>"
  define r0 where "r0 = \<lparr>status_code = 200, payload = Some (JObj demo_device_doc)\<rparr>"
  have dev: "requests_post E (device_code_request E) demo_world = (Inr r0, w0)"
    unfolding E_def w0_def r0_def by (rule demo_flow_device_post)
  have ok: "status_code r0 = 200" and doc: "payload r0 = Some (JObj demo_device_doc)"
    by (simp_all add: r0_def)
  have pend: "\<forall>n. error_reply ''authorization_pending''
                 (net E n (poll_request E (JStr ''DEVICE-CODE'')))"
    unfolding E_def
    by (intro allI demo_flow_error_reply [where st = 400]) (simp_all add: pending_answer_def)
  have dl: "\<forall>n rq. 0 \<le> delay (net E n rq)"
    by (simp add: E_def demo_env_def net_flow_def)
  have os: "\<forall>n. 0 \<le> oversleep E n"
    by (simp add: E_def demo_env_def)
  have zero: "(\<forall>n. oversleep E n = 0)
      \<and> (\<forall>n. delay (net E n (poll_request E (JStr ''DEVICE-CODE''))) = 0)"
    by (simp add: E_def demo_env_def net_flow_def)
  have fuel: "(5::nat) \<le> 5"
    by simp
  from device_code_expiry [OF dev ok doc demo_device_doc_fields(1) demo_device_doc_fields(2)
      demo_device_doc_fields(3) demo_device_doc_fields(4) pend dl os fuel]
  obtain w' k where
    res: "device_code_login 5 E demo_world
            = Some (Inl (TimeoutError ''Device code expired before you finished signing in.''), w')"
    and tr: "trace w' = trace demo_world @ Sent (device_code_request E)
                # concat (replicate k [Slept 5, Sent (poll_request E (JStr ''DEVICE-CODE''))])"
    and exact: "(\<forall>n. oversleep E n = 0)
        \<and> (\<forall>n. delay (net E n (poll_request E (JStr ''DEVICE-CODE''))) = 0)
        \<longrightarrow> k = 4 \<and> clock w' = clock w0 + 20"
    by blast
  from exact zero have k: "k = 4" and ck: "clock w' = clock w0 + 20"
    by simp_all
  from tr k have "trace w' = Sent (device_code_request E)
      # concat (replicate 4 [Slept 5, Sent (poll_request E (JStr ''DEVICE-CODE''))])"
    by (simp add: demo_world_def)
  moreover from ck have "clock w' = clock demo_world + 20"
    by (simp add: w0_def)
  ultimately show ?thesis
    using res unfolding E_def by blast
qed

section \<open>Claim C3: slow_down\<close>

lemma polled_and_slept_fields:
  assumes "0 \<le> secs"
  shows "slept (polled_and_slept E rq secs w) = slept w @ [secs]"
    and "sent (polled_and_slept E rq secs w) = sent w @ [rq]"
    and "trace (polled_and_slept E rq secs w) = trace w @ [Sent rq, Slept secs]"
    and "clock (polled_and_slept E rq secs w) =
           clock w + delay (net E (length (sent w)) rq) + of_int secs
             + oversleep E (length (slept w))"
  using assms
  by (simp_all add: polled_and_slept_def time_sleep_ok requests_post_result)

lemma msal_poll_loop_continue:
  assumes "clock w < deadline"
    and "dict_index j ''device_code'' = Inr code"
    and "error_reply c (net E (length (sent w)) (msal_poll_request code))"
    and "c = ''authorization_pending'' \<or> c = ''slow_down''"
    and "0 \<le> interval"
  shows "msal_poll_loop (Suc n) E j deadline interval w =
           msal_poll_loop n E j deadline interval
             (polled_and_slept E (msal_poll_request code)
                (interval + (if c = ''slow_down'' then 5 else 0)) w)"
proof -
  from assms(3) obtain r b where
    r: "outcome (net E (length (sent w)) (msal_poll_request code)) = Inr r"
    and st: "status_code r \<noteq> 200"
    and pl: "payload r = Some (JObj b)"
    and er: "dict_get b ''error'' = JStr c"
    by (rule error_replyD)
  define w1 where "w1 = snd (requests_post E (msal_poll_request code) w)"
  have po: "requests_post E (msal_poll_request code) w = (Inr r, w1)"
    unfolding w1_def by (simp add: requests_post_result r)
  have sl: "time_sleep E s w1 = (Inr (), polled_and_slept E (msal_poll_request code) s w)"
    if "0 \<le> s" for s
    unfolding polled_and_slept_def w1_def [symmetric] using that
    by (simp add: time_sleep_ok)
  have js: "resp_json r = Inr (JObj b)"
    by (simp add: resp_json_def pl)
  have ad: "as_dict (JObj b) = Inr b"
    by (simp add: as_dict_def)
  show ?thesis
  proof (cases "c = ''slow_down''")
    case True
    have "0 \<le> interval + 5"
      using assms(5) by simp
    from sl [OF this] True assms(1) assms(2) st er show ?thesis
      by (simp add: po js ad Let_def)
  next
    case False
    with assms(4) have pc: "c = ''authorization_pending''"
      by simp
    from sl [OF assms(5)] pc assms(1) assms(2) st er show ?thesis
      by (simp add: po js ad Let_def)
  qed
qed

lemma msal_poll_loop_token:
  assumes "clock w < deadline"
    and "dict_index j ''device_code'' = Inr code"
    and "outcome (net E (length (sent w)) (msal_poll_request code)) = Inr r"
    and "status_code r = 200"
    and "payload r = Some (JObj t)"
  shows "msal_poll_loop (Suc n) E j deadline interval w =
           Some (Inr (), snd (requests_post E (msal_poll_request code) w))"
  using assms
  by (simp add: requests_post_result resp_json_def as_dict_def)

lemma poll_loop_token:
  assumes "clock w < deadline" and "0 \<le> interval"
    and "dict_index dc ''device_code'' = Inr code"
    and "outcome (net E (length (sent w)) (poll_request E code)) = Inr tr"
    and "status_code tr = 200"
  shows "poll_loop (Suc n) E dc deadline interval w =
           Some (poll_success E tr (slept_and_polled E interval (poll_request E code) w))"
proof -
  define ws where "ws = snd (time_sleep E interval w)"
  have sl: "time_sleep E interval w = (Inr (), ws)"
    unfolding ws_def using assms(2) by (simp add: time_sleep_ok)
  have sn: "sent ws = sent w"
    unfolding ws_def using assms(2) by (simp add: time_sleep_ok)
  define wp where "wp = slept_and_polled E interval (poll_request E code) w"
  have po: "requests_post E (poll_request E code) ws = (Inr tr, wp)"
    unfolding wp_def slept_and_polled_def ws_def [symmetric]
    by (simp add: requests_post_result sn assms(4))
  show ?thesis
    unfolding wp_def [symmetric]
    using assms(1) assms(3) assms(5) by (simp add: sl po)
qed

subsection \<open>The two loops against the same token endpoint\<close>

lemma demo_flow_msal_reply:
  "net (demo_env (net_flow d a)) n (msal_poll_request code) =
     \<lparr>delay = d, outcome = Inr \<lparr>status_code = fst (a n), payload = Some (snd (a n))\<rparr>\<rparr>"
  by (simp add: demo_env_def net_flow_def msal_poll_request_def TOKEN_URL_def DEVICE_CODE_URL_def)

lemma demo_flow_msal_main:
  "msal_main fuel (demo_env (net_flow d a)) w =
     msal_poll_loop fuel (demo_env (net_flow d a)) demo_device_doc (clock w + d + 20) 5
       (w\<lparr>clock := clock w + d,
          sent := sent w @ [msal_device_code_request],
          trace := trace w @ [Sent msal_device_code_request]\<rparr>)"
proof -
  have post: "requests_post (demo_env (net_flow d a)) msal_device_code_request w =
     (Inr \<lparr>status_code = 200, payload = Some (JObj demo_device_doc)\<rparr>,
      w\<lparr>clock := clock w + d,
        sent := sent w @ [msal_device_code_request],
        trace := trace w @ [Sent msal_device_code_request]\<rparr>)"
    by (simp add: requests_post_result demo_env_def net_flow_def msal_device_code_request_def)
  have msg: "dict_index demo_device_doc ''message''
      = Inr (JStr ''To sign in, open the page and enter the code.'')"
    by (simp add: dict_index_def demo_device_doc_def)
  show ?thesis
    by (simp add: msal_main_def post resp_json_def msg demo_device_doc_fields)
qed

text \<open>
  Claim C3 on \<^verbatim>\<open>msal.py\<close>: the token endpoint answers the first poll with
  \<^verbatim>\<open>slow_down\<close>, the second with \<^verbatim>\<open>authorization_pending\<close> and the third with the token;
  the interval is 5. The script sleeps 10 seconds after the first poll and 5 seconds after
  the second: the increase lasts for one sleep. The claim asks for at least 10 seconds
  for every sleep after the \<^verbatim>\<open>slow_down\<close>. Against the same endpoint
  \<^verbatim>\<open>device_code_login\<close> of \<^verbatim>\<open>ms_oauth_cache.py\<close> sleeps 5, 10 and 10 seconds; that its
  sleeps never get shorter and stay 5 seconds longer after every \<^verbatim>\<open>slow_down\<close> is
  \<open>poll_loop_slow_down_monotone\<close>.
\<close>

theorem msal_slow_down_one_shot:
  "(\<exists>w. msal_main 5 (demo_env (net_flow 0 slow_down_once)) demo_world = Some (Inr (), w)
      \<and> slept w = [10, 5]
      \<and> trace w = [Sent msal_device_code_request,
            Sent (msal_poll_request (JStr ''DEVICE-CODE'')), Slept 10,
            Sent (msal_poll_request (JStr ''DEVICE-CODE'')), Slept 5,
            Sent (msal_poll_request (JStr ''DEVICE-CODE''))])
   \<and> (\<exists>res w. device_code_login 5 (demo_env (net_flow 0 slow_down_once)) demo_world
        = Some (res, w)
      \<and> slept w = [5, 10, 10])"
proof -
  define E where "E = demo_env (net_flow 0 slow_down_once)"
  define D where "D = clock demo_world + 0 + 20"
  define code where "code = JStr ''DEVICE-CODE''"
  have five: "(5::nat) = Suc (Suc (Suc (Suc (Suc 0))))"
    by simp
  have cd: "dict_index demo_device_doc ''device_code'' = Inr code"
    unfolding code_def by (rule demo_device_doc_fields(4))
  have slow: "slow_down_once 1 = (400, JObj [(''error'', JStr ''slow_down'')])"
    and slow': "slow_down_once (Suc 0) = (400, JObj [(''error'', JStr ''slow_down'')])"
    and pending: "slow_down_once 2 = (400, JObj [(''error'', JStr ''authorization_pending'')])"
    and token: "fst (slow_down_once 3) = 200"
      "snd (slow_down_once 3) = JObj [(''access_token'', JStr ''AT-1''),
          (''refresh_token'', JStr ''RT-1''), (''expires_in'', JInt 3600)]"
    by (simp_all add: slow_down_once_def slow_down_answer_def pending_answer_def token_answer_def)

  define M0 where
    "M0 = demo_world\<lparr>clock := clock demo_world + 0,
            sent := sent demo_world @ [msal_device_code_request],
            trace := trace demo_world @ [Sent msal_device_code_request]\<rparr>"
  define M1 where "M1 = polled_and_slept E (msal_poll_request code) 10 M0"
  define M2 where "M2 = polled_and_slept E (msal_poll_request code) 5 M1"
  define M3 where "M3 = snd (requests_post E (msal_poll_request code) M2)"
  have m_start: "msal_main (Suc (Suc (Suc (Suc (Suc 0))))) E demo_world
      = msal_poll_loop (Suc (Suc (Suc (Suc (Suc 0))))) E demo_device_doc D 5 M0"
    unfolding E_def M0_def D_def by (rule demo_flow_msal_main)
  have m0: "clock M0 = clock demo_world" "length (sent M0) = 1" "slept M0 = []"
    by (simp_all add: M0_def demo_world_def)
  have me0: "clock M0 < D"
    by (simp add: m0 D_def)
  have mr1: "error_reply ''slow_down'' (net E (length (sent M0)) (msal_poll_request code))"
    unfolding E_def m0 by (simp add: demo_flow_msal_reply error_reply_def dict_get_def slow')
  have ms1: "msal_poll_loop (Suc (Suc (Suc (Suc (Suc 0))))) E demo_device_doc D 5 M0
      = msal_poll_loop (Suc (Suc (Suc (Suc 0)))) E demo_device_doc D 5 M1"
    unfolding M1_def
    using msal_poll_loop_continue [where interval = 5 and n = "Suc (Suc (Suc (Suc 0)))",
        OF me0 cd mr1]
    by simp
  have ten: "(0::int) \<le> 10" and fv: "(0::int) \<le> 5"
    by simp_all
  have m1: "clock M1 = clock demo_world + 10" "length (sent M1) = 2" "slept M1 = [10]"
    unfolding M1_def polled_and_slept_fields [OF ten]
    by (simp_all add: m0 E_def demo_flow_msal_reply) (simp add: demo_env_def)
  have me1: "clock M1 < D"
    by (simp add: m1 D_def)
  have mr2: "error_reply ''authorization_pending''
               (net E (length (sent M1)) (msal_poll_request code))"
    unfolding E_def m1 by (simp add: demo_flow_msal_reply error_reply_def dict_get_def pending)
  have ms2: "msal_poll_loop (Suc (Suc (Suc (Suc 0)))) E demo_device_doc D 5 M1
      = msal_poll_loop (Suc (Suc (Suc 0))) E demo_device_doc D 5 M2"
    unfolding M2_def
    using msal_poll_loop_continue [where interval = 5 and n = "Suc (Suc (Suc 0))",
        OF me1 cd mr2]
    by simp
  have m2: "clock M2 = clock demo_world + 15" "length (sent M2) = 3" "slept M2 = [10, 5]"
    unfolding M2_def polled_and_slept_fields [OF fv]
    by (simp_all add: m1 E_def demo_flow_msal_reply) (simp add: demo_env_def)
  have me2: "clock M2 < D"
    by (simp add: m2 D_def)
  have mr3: "outcome (net E (length (sent M2)) (msal_poll_request code))
      = Inr \<lparr>status_code = fst (slow_down_once 3), payload = Some (snd (slow_down_once 3))\<rparr>"
    unfolding E_def m2 by (simp add: demo_flow_msal_reply)
  have ms3: "msal_poll_loop (Suc (Suc (Suc 0))) E demo_device_doc D 5 M2 = Some (Inr (), M3)"
    unfolding M3_def
    by (rule msal_poll_loop_token [OF me2 cd mr3]) (simp_all add: token)
  have m3: "slept M3 = [10, 5]"
    unfolding M3_def by (simp add: requests_post_result m2)
  have t0: "trace M0 = [Sent msal_device_code_request]"
    by (simp add: M0_def demo_world_def)
  have t1: "trace M1 = [Sent msal_device_code_request, Sent (msal_poll_request code), Slept 10]"
    unfolding M1_def polled_and_slept_fields(3) [OF ten] t0 by simp
  have t2: "trace M2 = [Sent msal_device_code_request, Sent (msal_poll_request code), Slept 10,
      Sent (msal_poll_request code), Slept 5]"
    unfolding M2_def polled_and_slept_fields(3) [OF fv] t1 by simp
  have t3: "trace M3 = [Sent msal_device_code_request, Sent (msal_poll_request code), Slept 10,
      Sent (msal_poll_request code), Slept 5, Sent (msal_poll_request code)]"
    unfolding M3_def by (simp add: requests_post_result t2)
  have "msal_main 5 E demo_world = Some (Inr (), M3)"
    unfolding five m_start ms1 ms2 ms3 ..
  with m3 t3 have msal: "\<exists>w. msal_main 5 E demo_world = Some (Inr (), w)
      \<and> slept w = [10, 5]
      \<and> trace w = [Sent msal_device_code_request, Sent (msal_poll_request code), Slept 10,
            Sent (msal_poll_request code), Slept 5, Sent (msal_poll_request code)]"
    by blast

  define rq where "rq = poll_request E code"
  define W0 where
    "W0 = demo_world\<lparr>clock := clock demo_world + 0,
            sent := sent demo_world @ [device_code_request E],
            trace := trace demo_world @ [Sent (device_code_request E)]\<rparr>"
  define W1 where "W1 = slept_and_polled E 5 rq W0"
  define W2 where "W2 = slept_and_polled E 10 rq W1"
  define W3 where "W3 = slept_and_polled E 10 rq W2"
  have d_start: "device_code_login (Suc (Suc (Suc (Suc (Suc 0))))) E demo_world
      = poll_loop (Suc (Suc (Suc (Suc (Suc 0))))) E demo_device_doc D 5 W0"
    unfolding E_def W0_def D_def by (rule demo_flow_login)
  note step = demo_flow_step [where d = 0 and a = slow_down_once and deadline = D,
      folded E_def, folded code_def, folded rq_def]
  have w0: "clock W0 = clock demo_world" "length (sent W0) = 1" "slept W0 = []"
    by (simp_all add: W0_def demo_world_def)
  have e0: "clock W0 < D"
    by (simp add: w0 D_def)
  have a0: "slow_down_once (length (sent W0)) = (400, JObj [(''error'', JStr ''slow_down'')])"
    unfolding w0 by (rule slow)
  have ds1: "poll_loop (Suc (Suc (Suc (Suc (Suc 0))))) E demo_device_doc D 5 W0
      = poll_loop (Suc (Suc (Suc (Suc 0)))) E demo_device_doc D 10 W1"
    unfolding W1_def
    using step(1) [where w = W0 and interval = 5 and n = "Suc (Suc (Suc (Suc 0)))", OF e0 _ a0]
    by simp
  have w1: "clock W1 = clock demo_world + 5" "length (sent W1) = 2" "slept W1 = [5]"
    unfolding W1_def
    using step(2) [where w = W0 and interval = 5, OF e0 _ a0]
      step(3) [where w = W0 and interval = 5, OF e0 _ a0]
      step(4) [where w = W0 and interval = 5, OF e0 _ a0]
    by (simp_all add: w0)
  have e1: "clock W1 < D"
    by (simp add: w1 D_def)
  have a1: "slow_down_once (length (sent W1))
      = (400, JObj [(''error'', JStr ''authorization_pending'')])"
    unfolding w1 by (rule pending)
  have ds2: "poll_loop (Suc (Suc (Suc (Suc 0)))) E demo_device_doc D 10 W1
      = poll_loop (Suc (Suc (Suc 0))) E demo_device_doc D 10 W2"
    unfolding W2_def
    using step(1) [where w = W1 and interval = 10 and n = "Suc (Suc (Suc 0))", OF e1 _ a1]
    by simp
  have w2: "clock W2 = clock demo_world + 15" "length (sent W2) = 3" "slept W2 = [5, 10]"
    unfolding W2_def
    using step(2) [where w = W1 and interval = 10, OF e1 _ a1]
      step(3) [where w = W1 and interval = 10, OF e1 _ a1]
      step(4) [where w = W1 and interval = 10, OF e1 _ a1]
    by (simp_all add: w1)
  have e2: "clock W2 < D"
    by (simp add: w2 D_def)
  have r3: "outcome (net E (length (sent W2)) (poll_request E code))
      = Inr \<lparr>status_code = fst (slow_down_once 3), payload = Some (snd (slow_down_once 3))\<rparr>"
    unfolding E_def w2 by (simp add: demo_flow_poll_reply)
  have ds3: "poll_loop (Suc (Suc (Suc 0))) E demo_device_doc D 10 W2
      = Some (poll_success E
                \<lparr>status_code = fst (slow_down_once 3), payload = Some (snd (slow_down_once 3))\<rparr>
                W3)"
    unfolding W3_def rq_def
    by (rule poll_loop_token [OF e2 _ cd r3]) (simp_all add: token)
  have w3: "slept W3 = [5, 10, 10]"
    unfolding W3_def rq_def
    using slept_and_polled_fields(3) [of 10 E "poll_request E code" W2]
    by (simp add: w2)
  obtain res w' where ps: "poll_success E
      \<lparr>status_code = fst (slow_down_once 3), payload = Some (snd (slow_down_once 3))\<rparr> W3
        = (res, w')"
    by (cases "poll_success E
      \<lparr>status_code = fst (slow_down_once 3), payload = Some (snd (slow_down_once 3))\<rparr> W3")
  from poll_success_slept [OF ps] w3 have "slept w' = [5, 10, 10]"
    by simp
  moreover have "device_code_login 5 E demo_world = Some (res, w')"
    unfolding five d_start ds1 ds2 ds3 ps ..
  ultimately have "\<exists>res w. device_code_login 5 E demo_world = Some (res, w)
      \<and> slept w = [5, 10, 10]"
    by blast
  with msal show ?thesis
    unfolding E_def code_def by (rule conjI)
qed


end
